theory Spec2Isabelle
  imports Complex_Main "HOL-Library.Sublist"
begin

section \<open>Python values, rows and exceptions\<close>

text \<open>
  The notebook \<^verbatim>\<open>tutorials/llm/distill_deepseek_r1/generate_reasoning_data.ipynb\<close> works on
  rows of a dataset. A row is a Python dict from column names to values; the functions of
  the notebook read the columns \<^verbatim>\<open>problem\<close>, \<^verbatim>\<open>answer\<close> and
  \<^verbatim>\<open>reasoning_trace\<close> and write \<^verbatim>\<open>reasoning_trace\<close>,
  \<^verbatim>\<open>filtered\<close> and \<^verbatim>\<open>filtered_reason\<close>. The values that occur there are
  strings, booleans and \<^verbatim>\<open>None\<close>.
\<close>

datatype pyval = Str string | Bool bool | PyNone

type_synonym example = "string \<rightharpoonup> pyval"

text \<open>
  The exceptions of the model are all instances of Python's \<^verbatim>\<open>Exception\<close>:
  a missing key, an index out of range, a value of the wrong type, a malformed format
  string, and \<^verbatim>\<open>ServiceError\<close> for whatever an external collaborator (the inference
  client, its stream, the answer verification library) raises, with its message.
  Asynchronous signals that are not instances of \<^verbatim>\<open>Exception\<close>
  (\<^verbatim>\<open>KeyboardInterrupt\<close>) are outside the model.
\<close>

datatype exn =
    KeyError string
  | IndexError
  | TypeError
  | ValueError
  | ServiceError string

text \<open>\<^verbatim>\<open>str(e)\<close>, as the f-string of the accumulator prints it.\<close>

fun exn_str :: "exn \<Rightarrow> string" where
  "exn_str (KeyError k) = [CHR 0x27] @ k @ [CHR 0x27]"
| "exn_str IndexError = ''list index out of range''"
| "exn_str TypeError = ''expected string or bytes-like object''"
| "exn_str ValueError = ''invalid format string''"
| "exn_str (ServiceError m) = m"

text \<open>\<^verbatim>\<open>str(v)\<close>, and the truth value Python gives \<^verbatim>\<open>v\<close> in \<^verbatim>\<open>not v\<close>.\<close>

fun py_str :: "pyval \<Rightarrow> string" where
  "py_str (Str s) = s"
| "py_str (Bool b) = (if b then ''True'' else ''False'')"
| "py_str PyNone = ''None''"

fun truthy :: "pyval \<Rightarrow> bool" where
  "truthy (Str s) = (s \<noteq> [])"
| "truthy (Bool b) = b"
| "truthy PyNone = False"

text \<open>\<^verbatim>\<open>example[key]\<close>: a missing key raises \<^verbatim>\<open>KeyError\<close>.\<close>

definition getitem :: "example \<Rightarrow> string \<Rightarrow> exn + pyval" where
  "getitem example k = (case example k of None \<Rightarrow> Inl (KeyError k) | Some v \<Rightarrow> Inr v)"

section \<open>The format check\<close>

subsection \<open>The part of \<^verbatim>\<open>re\<close> that \<^verbatim>\<open>check_format\<close> uses\<close>

text \<open>
  The pattern \<^verbatim>\<open>^<think>.*?</think>\<close> uses three constructs of Python's regular
  expressions: the anchor \<^verbatim>\<open>^\<close>, single characters (a literal, or the dot) and the
  lazy star \<^verbatim>\<open>*?\<close> on a single character. \<open>compile\<close> reads exactly these; every
  other character stands for itself, which is right for the letters and
  \<^verbatim>\<open><\<close>, \<^verbatim>\<open>>\<close>, \<^verbatim>\<open>/\<close> of the pattern.

  A \<open>char\<close> is a byte, so a trace with characters beyond ASCII is its UTF-8 encoding
  here. The tags are ASCII and no byte of a longer UTF-8 sequence is an ASCII
  character, so the tags occur at the same places in the encoding as in the Python
  string.
\<close>

datatype atom = Lit char | Dot

datatype item = Bol | One atom | LazyStar atom

record flags =
  DOTALL :: bool
  MULTILINE :: bool

definition atom_of :: "char \<Rightarrow> atom" where
  "atom_of c = (if c = CHR ''.'' then Dot else Lit c)"

fun compile :: "string \<Rightarrow> item list" where
  "compile [] = []"
| "compile (c # cs) =
     (if c = CHR ''^'' then Bol # compile cs
      else if take 2 cs = ''*?'' then LazyStar (atom_of c) # compile (drop 2 cs)
      else One (atom_of c) # compile cs)"

text \<open>
  A character matches the dot when \<^verbatim>\<open>DOTALL\<close> is set or it is not a newline.
  \<^verbatim>\<open>^\<close> matches at the start of the string and, under \<^verbatim>\<open>MULTILINE\<close>, right
  after a newline; \<open>prev\<close> is the character before the current position
  (\<open>None\<close> at position zero).
\<close>

fun atom_matches :: "flags \<Rightarrow> atom \<Rightarrow> char \<Rightarrow> bool" where
  "atom_matches f (Lit c) x = (x = c)"
| "atom_matches f Dot x = (DOTALL f \<or> x \<noteq> CHR 0x0A)"

definition at_bol :: "flags \<Rightarrow> char option \<Rightarrow> bool" where
  "at_bol f prev = (case prev of None \<Rightarrow> True | Some c \<Rightarrow> MULTILINE f \<and> c = CHR 0x0A)"

text \<open>
  The backtracking matcher: it returns the rest of the string after the first match it
  finds, in the order \<^verbatim>\<open>re\<close> tries them (a lazy star first tries to go on with the
  rest of the pattern, and consumes one more character only when that fails).
\<close>

function match_here :: "flags \<Rightarrow> item list \<Rightarrow> char option \<Rightarrow> string \<Rightarrow> string option" where
  "match_here f [] prev s = Some s"
| "match_here f (Bol # ps) prev s = (if at_bol f prev then match_here f ps prev s else None)"
| "match_here f (One a # ps) prev [] = None"
| "match_here f (One a # ps) prev (c # s) =
     (if atom_matches f a c then match_here f ps (Some c) s else None)"
| "match_here f (LazyStar a # ps) prev s =
     (case match_here f ps prev s of
        Some r \<Rightarrow> Some r
      | None \<Rightarrow>
          (case s of
             [] \<Rightarrow> None
           | c # s' \<Rightarrow>
               if atom_matches f a c then match_here f (LazyStar a # ps) (Some c) s'
               else None))"
  by pat_completeness auto
termination
  by (relation "measure (\<lambda>(f, ps, prev, s). length ps + length s)") auto

text \<open>\<^verbatim>\<open>re.match(pattern, string, flags)\<close>: a match at position zero, or \<open>None\<close>.\<close>

definition re_match :: "string \<Rightarrow> string \<Rightarrow> flags \<Rightarrow> string option" where
  "re_match pat s f = match_here f (compile pat) None s"

subsection \<open>\<^verbatim>\<open>str.count\<close>\<close>

text \<open>
  \<^verbatim>\<open>s.count(sub)\<close> counts the occurrences of \<open>sub\<close> in \<open>s\<close> that do not overlap,
  from the left; the empty string occurs \<open>len(s) + 1\<close> times.
\<close>

function str_count :: "string \<Rightarrow> string \<Rightarrow> nat" where
  "str_count s sub =
     (if sub = [] then length s + 1
      else if s = [] then 0
      else if prefix sub s then 1 + str_count (drop (length sub) s) sub
      else str_count (tl s) sub)"
  by pat_completeness auto
termination
  by (relation "measure (\<lambda>(s, sub). length s)") auto

declare str_count.simps [simp del]

subsection \<open>\<^verbatim>\<open>check_format\<close>\<close>

text \<open>
  \<^verbatim>\<open>
  def check_format(reasoning_trace):
      pattern = r"^<think>.*?</think>"
      if not re.match(pattern, reasoning_trace, re.DOTALL | re.MULTILINE):
          return False
      # check if all tags only appear once
      tags = ["<think>", "</think>"]
      for tag in tags:
          if reasoning_trace.count(tag) != 1:
              return False
      return True
  \<close>
\<close>

definition pattern :: string where
  "pattern = ''^<think>.*?</think>''"

definition tags :: "string list" where
  "tags = [''<think>'', ''</think>'']"

fun tags_loop :: "string \<Rightarrow> string list \<Rightarrow> bool" where
  "tags_loop reasoning_trace [] = True"
| "tags_loop reasoning_trace (tag # rest) =
     (if str_count reasoning_trace tag \<noteq> 1 then False else tags_loop reasoning_trace rest)"

definition check_format :: "string \<Rightarrow> bool" where
  "check_format reasoning_trace =
     (if re_match pattern reasoning_trace \<lparr>DOTALL = True, MULTILINE = True\<rparr> = None then False
      else tags_loop reasoning_trace tags)"

text \<open>The items of a literal string, for stating what \<open>compile\<close> gives on the pattern.\<close>

fun literal :: "string \<Rightarrow> item list" where
  "literal [] = []"
| "literal (c # cs) = One (Lit c) # literal cs"


subsection \<open>What the format check is compared with\<close>

text \<open>
  The number of positions of \<open>s\<close> at which \<open>sub\<close> occurs (overlapping occurrences
  counted, unlike \<^verbatim>\<open>str.count\<close>): the statement "the token occurs exactly once".
\<close>

fun occurrences :: "string \<Rightarrow> string \<Rightarrow> nat" where
  "occurrences sub [] = (if sub = [] then 1 else 0)"
| "occurrences sub (c # s) = (if prefix sub (c # s) then 1 else 0) + occurrences sub s"

text \<open>
  The simpler predicate the format check is claimed to be equivalent to: the trace starts
  with the opening tag, and each tag occurs exactly once.
\<close>

definition check_format_spec :: "string \<Rightarrow> bool" where
  "check_format_spec t =
     (prefix ''<think>'' t \<and> occurrences ''<think>'' t = 1 \<and> occurrences ''</think>'' t = 1)"

section \<open>The stream accumulator\<close>

text \<open>
  A chunk of the streamed completion, as \<^verbatim>\<open>chunk.choices[0].delta.content\<close> reads
  it: a list of choices, each with a delta whose content is a string or \<^verbatim>\<open>None\<close>.
  Iterating the completion yields its chunks and then either stops or raises (the
  transport failed).
\<close>

record choice_delta =
  content :: "string option"

record choice =
  delta :: choice_delta

record chunk =
  choices :: "choice list"

datatype ending = StopIteration | Raises exn

type_synonym completion = "chunk list \<times> ending"

text \<open>\<^verbatim>\<open>chunk.choices[0]\<close>: an empty list of choices raises \<^verbatim>\<open>IndexError\<close>.\<close>

definition first_choice :: "chunk \<Rightarrow> exn + choice" where
  "first_choice ch = (case choices ch of [] \<Rightarrow> Inl IndexError | c # _ \<Rightarrow> Inr c)"

text \<open>
  \<^verbatim>\<open>
  def process_streaming_response(completion):
      """Process the streaming response from the R1 model"""
      reasoning_trace = ""
      try:
          for chunk in completion:
              if chunk.choices[0].delta.content is not None:
                  reasoning_trace += chunk.choices[0].delta.content
          return reasoning_trace
      except Exception as e:
          print(f"Error occurred: {e}")
          return reasoning_trace
  \<close>
  \<open>for_loop\<close> is the body of the \<^verbatim>\<open>try\<close>: it returns the value of
  \<^verbatim>\<open>reasoning_trace\<close> when the block is left, and the exception that left it, if
  any, with the place that raised it: the iterator (\<^verbatim>\<open>for chunk in completion\<close>) or
  the loop body (\<^verbatim>\<open>chunk.choices[0]\<close>). The handler treats both alike. What
  \<^verbatim>\<open>print\<close> writes is appended to the lines of the standard output.
\<close>

datatype origin = FromIterator | FromBody

fun for_loop :: "string \<Rightarrow> chunk list \<Rightarrow> ending \<Rightarrow> string \<times> (origin \<times> exn) option" where
  "for_loop reasoning_trace [] StopIteration = (reasoning_trace, None)"
| "for_loop reasoning_trace [] (Raises e) = (reasoning_trace, Some (FromIterator, e))"
| "for_loop reasoning_trace (ch # rest) fin =
     (case first_choice ch of
        Inl e \<Rightarrow> (reasoning_trace, Some (FromBody, e))
      | Inr c \<Rightarrow>
          (case content (delta c) of
             None \<Rightarrow> for_loop reasoning_trace rest fin
           | Some d \<Rightarrow> for_loop (reasoning_trace @ d) rest fin))"

definition process_streaming_response :: "completion \<Rightarrow> string list \<Rightarrow> string \<times> string list" where
  "process_streaming_response completion out =
     (case for_loop [] (fst completion) (snd completion) of
        (reasoning_trace, None) \<Rightarrow> (reasoning_trace, out)
      | (reasoning_trace, Some (src, e)) \<Rightarrow>
          (reasoning_trace, out @ [''Error occurred: '' @ exn_str e]))"

text \<open>
  What the accumulator is compared with: the text fragments of a list of chunks, in
  order (a chunk without choices or with content \<^verbatim>\<open>None\<close> carries none), and the
  chunks the loop gets through before a chunk without choices stops it.
\<close>

fun fragment :: "chunk \<Rightarrow> string" where
  "fragment ch =
     (case choices ch of
        [] \<Rightarrow> []
      | c # _ \<Rightarrow> (case content (delta c) of None \<Rightarrow> [] | Some d \<Rightarrow> d))"

definition fragments :: "chunk list \<Rightarrow> string" where
  "fragments chs = concat (map fragment chs)"

definition has_choice :: "chunk \<Rightarrow> bool" where
  "has_choice ch = (choices ch \<noteq> [])"

definition processed :: "chunk list \<Rightarrow> chunk list" where
  "processed chs = takeWhile has_choice chs"

text \<open>A chunk with one choice of the given content, and a chunk with no choice.\<close>

definition chunk_of :: "string option \<Rightarrow> chunk" where
  "chunk_of c = \<lparr>choices = [\<lparr>delta = \<lparr>content = c\<rparr>\<rparr>]\<rparr>"

definition empty_chunk :: chunk where
  "empty_chunk = \<lparr>choices = []\<rparr>"

section \<open>The trace requester\<close>

text \<open>
  The request \<^verbatim>\<open>client.chat.completions.create\<close> receives. A message is the dict
  literal of the source, as its list of items. The literals \<^verbatim>\<open>0.6\<close> and
  \<^verbatim>\<open>0.7\<close> are kept as the decimals the source writes (no arithmetic is done on
  them). The world holds what the notebook does to its surroundings: the requests
  issued, the lines printed, and the datasets saved to disk.
\<close>

record request =
  model :: string
  messages :: "(string \<times> string) list list"
  temperature :: rat
  top_p :: rat
  max_tokens :: int
  timeout :: int
  stream :: bool

record world =
  requests :: "request list"
  stdout :: "string list"
  disk :: "string \<rightharpoonup> example list"

text \<open>
  The inference client is an external collaborator: to its \<open>n\<close>-th request it answers
  with a stream, or raises.
\<close>

type_synonym client = "nat \<Rightarrow> request \<Rightarrow> exn + completion"

definition create :: "client \<Rightarrow> request \<Rightarrow> world \<Rightarrow> (exn + completion) \<times> world" where
  "create client req w = (client (length (requests w)) req, w\<lparr>requests := requests w @ [req]\<rparr>)"

text \<open>
  \<^verbatim>\<open>PROMPT_TEMPLATE = "Please reason step by step, and put your final answer within \\boxed{{}}. {problem}"\<close>
  (the Python literal \<^verbatim>\<open>\\\<close> is one backslash, character \<open>0x5C\<close>).
\<close>

definition PROMPT_TEMPLATE :: string where
  "PROMPT_TEMPLATE =
     ''Please reason step by step, and put your final answer within ''
     @ [CHR 0x5C] @ ''boxed{{}}. {problem}''"

text \<open>
  \<^verbatim>\<open>template.format(**kwargs)\<close> for the replacement fields the template uses:
  \<^verbatim>\<open>{{\<close> and \<^verbatim>\<open>}}\<close> are the escaped braces, \<^verbatim>\<open>{name}\<close> is replaced by
  \<^verbatim>\<open>str\<close> of the keyword argument of that name (conversions and format
  specifications are not interpreted), \<^verbatim>\<open>{}\<close> asks for a positional argument, of
  which there is none, and a single brace is an error.
\<close>

definition prepend :: "string \<Rightarrow> exn + string \<Rightarrow> exn + string" where
  "prepend s r = (case r of Inl e \<Rightarrow> Inl e | Inr t \<Rightarrow> Inr (s @ t))"

function py_format :: "string \<Rightarrow> (string \<times> pyval) list \<Rightarrow> exn + string" where
  "py_format [] kwargs = Inr []"
| "py_format (c # cs) kwargs =
     (if c = CHR ''{'' then
        (if take 1 cs = ''{'' then prepend ''{'' (py_format (drop 1 cs) kwargs)
         else
           let name = takeWhile (\<lambda>x. x \<noteq> CHR ''}'') cs;
               rest = dropWhile (\<lambda>x. x \<noteq> CHR ''}'') cs
           in if rest = [] then Inl ValueError
              else if name = [] then Inl IndexError
              else (case map_of kwargs name of
                      None \<Rightarrow> Inl (KeyError name)
                    | Some v \<Rightarrow> prepend (py_str v) (py_format (tl rest) kwargs)))
      else if c = CHR ''}'' then
        (if take 1 cs = ''}'' then prepend ''}'' (py_format (drop 1 cs) kwargs)
         else Inl ValueError)
      else prepend [c] (py_format cs kwargs))"
  by pat_completeness auto
termination
proof (relation "measure (\<lambda>(s, kwargs). length s)")
  fix c :: char and cs :: string and kwargs :: "(string \<times> pyval) list" and x xa
  assume xa: "xa = dropWhile (\<lambda>x. x \<noteq> CHR ''}'') cs"
  have "length (tl (dropWhile (\<lambda>x. x \<noteq> CHR ''}'') cs)) \<le> length cs"
    using length_dropWhile_le [of "\<lambda>x. x \<noteq> CHR ''}''" cs] by simp
  then show "((tl xa, kwargs), c # cs, kwargs) \<in> measure (\<lambda>(s, kwargs). length s)"
    using xa by simp
qed auto

declare py_format.simps [simp del]

text \<open>
  \<^verbatim>\<open>
  def distill_data_from_r1(example):
      problem = example["problem"]
      completion = client.chat.completions.create(
          model="nvdev/deepseek-ai/deepseek-r1",
          messages=[{"role": "user", "content": PROMPT_TEMPLATE.format(problem=problem)}],
          temperature=0.6,
          top_p=0.7,
          max_tokens=32768,
          timeout=10000,
          stream=True
      )

      reasoning_trace = process_streaming_response(completion)
      return {**example, "reasoning_trace": reasoning_trace}
  \<close>
\<close>

definition distill_data_from_r1 :: "client \<Rightarrow> example \<Rightarrow> world \<Rightarrow> (exn + example) \<times> world" where
  "distill_data_from_r1 client example w =
     (case getitem example ''problem'' of
        Inl e \<Rightarrow> (Inl e, w)
      | Inr problem \<Rightarrow>
          (case py_format PROMPT_TEMPLATE [(''problem'', problem)] of
             Inl e \<Rightarrow> (Inl e, w)
           | Inr prompt \<Rightarrow>
               (case create client
                       \<lparr>model = ''nvdev/deepseek-ai/deepseek-r1'',
                        messages = [[(''role'', ''user''), (''content'', prompt)]],
                        temperature = 0.6,
                        top_p = 0.7,
                        max_tokens = 32768,
                        timeout = 10000,
                        stream = True\<rparr> w of
                  (Inl e, w') \<Rightarrow> (Inl e, w')
                | (Inr completion, w') \<Rightarrow>
                    (case process_streaming_response completion (stdout w') of
                       (reasoning_trace, out) \<Rightarrow>
                         (Inr (example(''reasoning_trace'' \<mapsto> Str reasoning_trace)),
                          w'\<lparr>stdout := out\<rparr>)))))"

section \<open>The trace validator\<close>

text \<open>
  \<^verbatim>\<open>parse\<close> and \<^verbatim>\<open>verify\<close> belong to the library \<^verbatim>\<open>math_verify\<close>, which is
  not part of the repository: they are parameters. \<^verbatim>\<open>parse\<close> gets the text, the
  extraction configurations and the extraction mode, and returns what it extracted (of a
  type \<open>'p\<close> left open); \<^verbatim>\<open>verify\<close> gets that and the ground truth as the row has it,
  and returns a boolean. Either may raise.
\<close>

record NormalizationConfig =
  nits :: bool
  malformed_operators :: bool
  basic_latex :: bool
  equations :: bool
  boxed :: bool
  units :: bool

record LatexExtractionConfig =
  normalization_config :: NormalizationConfig
  boxed_match_priority :: int
  try_extract_without_anchor :: bool

datatype extraction_mode = first_match | any_match

type_synonym 'p parse_fn = "string \<Rightarrow> LatexExtractionConfig list \<Rightarrow> extraction_mode \<Rightarrow> exn + 'p"

type_synonym 'p verify_fn = "'p \<Rightarrow> pyval \<Rightarrow> exn + bool"

text \<open>
  \<^verbatim>\<open>
  def calculate_answer(reasoning_trace, ground_truth):
      """Check if the answer is the same as the ground truth."""
      answer_parsed = parse(
          reasoning_trace,
          extraction_config=[
              LatexExtractionConfig(
                  normalization_config=NormalizationConfig(
                      nits=False,
                      malformed_operators=False,
                      basic_latex=True,
                      equations=True,
                      boxed=True,
                      units=True,
                  ),
                  # Ensures that boxed is tried first
                  boxed_match_priority=0,
                  try_extract_without_anchor=False,
              )
          ],
          extraction_mode="first_match",
      )

      return verify(answer_parsed, ground_truth)
  \<close>
\<close>

definition calculate_answer :: "'p parse_fn \<Rightarrow> 'p verify_fn \<Rightarrow> string \<Rightarrow> pyval \<Rightarrow> exn + bool" where
  "calculate_answer parse verify reasoning_trace ground_truth =
     (case parse reasoning_trace
             [\<lparr>normalization_config =
                 \<lparr>nits = False,
                  malformed_operators = False,
                  basic_latex = True,
                  equations = True,
                  boxed = True,
                  units = True\<rparr>,
               boxed_match_priority = 0,
               try_extract_without_anchor = False\<rparr>]
             first_match of
        Inl e \<Rightarrow> Inl e
      | Inr answer_parsed \<Rightarrow> verify answer_parsed ground_truth)"

text \<open>
  \<^verbatim>\<open>
  def filter_reasoning_trace(example):
      reasoning_trace = example["reasoning_trace"]
      ground_truth = example["answer"]
      if not check_format(reasoning_trace):
          return {**example, "filtered": True, "filtered_reason": "INVALID_FORMAT"}
      if not calculate_answer(reasoning_trace, ground_truth):
          return {**example, "filtered": True, "filtered_reason": "INCORRECT_ANSWER"}
      return {**example, "filtered": False, "filtered_reason": "VALID"}
  \<close>
  \<^verbatim>\<open>re.match\<close> raises \<^verbatim>\<open>TypeError\<close> on a trace that is not a string.
\<close>

definition filter_reasoning_trace :: "'p parse_fn \<Rightarrow> 'p verify_fn \<Rightarrow> example \<Rightarrow> exn + example" where
  "filter_reasoning_trace parse verify example =
     (case getitem example ''reasoning_trace'' of
        Inl e \<Rightarrow> Inl e
      | Inr reasoning_trace \<Rightarrow>
          (case getitem example ''answer'' of
             Inl e \<Rightarrow> Inl e
           | Inr ground_truth \<Rightarrow>
               (case reasoning_trace of
                  Str t \<Rightarrow>
                    if \<not> check_format t then
                      Inr (example(''filtered'' \<mapsto> Bool True,
                                   ''filtered_reason'' \<mapsto> Str ''INVALID_FORMAT''))
                    else
                      (case calculate_answer parse verify t ground_truth of
                         Inl e \<Rightarrow> Inl e
                       | Inr correct \<Rightarrow>
                           if \<not> correct then
                             Inr (example(''filtered'' \<mapsto> Bool True,
                                          ''filtered_reason'' \<mapsto> Str ''INCORRECT_ANSWER''))
                           else
                             Inr (example(''filtered'' \<mapsto> Bool False,
                                          ''filtered_reason'' \<mapsto> Str ''VALID'')))
                | _ \<Rightarrow> Inl TypeError)))"

subsection \<open>The verification library, as it is documented\<close>

text \<open>
  Modelled from the documentation of \<^verbatim>\<open>math_verify\<close>, a library that is not part of
  the repository. \<^verbatim>\<open>parse\<close> returns a list: the extracted answer as a symbolic
  expression, followed by the extracted answer as a string. \<^verbatim>\<open>verify(gold, target)\<close>
  takes an expression, a string, or a list of them on either side, and is true when
  some element of \<^verbatim>\<open>gold\<close> matches some element of \<^verbatim>\<open>target\<close>: two expressions
  match when they are mathematically equal, two strings match when they are equal after
  \<^verbatim>\<open>strip()\<close> and not empty, and an expression never matches a string. A string is
  not parsed by \<^verbatim>\<open>verify\<close>. The type \<open>'e\<close> of expressions and their equality
  \<open>expr_eq\<close> are left open; \<open>strip\<close> removes the ASCII whitespace at both ends.
\<close>

datatype 'e extracted = Expr 'e | Text string

definition is_space :: "char \<Rightarrow> bool" where
  "is_space c = (c = CHR 0x20 \<or> c = CHR 0x09 \<or> c = CHR 0x0A \<or> c = CHR 0x0B \<or> c = CHR 0x0C
                 \<or> c = CHR 0x0D \<or> c = CHR 0x1C \<or> c = CHR 0x1D \<or> c = CHR 0x1E \<or> c = CHR 0x1F)"

definition strip :: "string \<Rightarrow> string" where
  "strip s = rev (dropWhile is_space (rev (dropWhile is_space s)))"

fun compare_single_extraction :: "('e \<Rightarrow> 'e \<Rightarrow> bool) \<Rightarrow> 'e extracted \<Rightarrow> 'e extracted \<Rightarrow> bool" where
  "compare_single_extraction expr_eq (Expr gold) (Expr target) = expr_eq gold target"
| "compare_single_extraction expr_eq (Text gold) (Text target) =
     (strip gold \<noteq> [] \<and> strip target \<noteq> [] \<and> strip gold = strip target)"
| "compare_single_extraction expr_eq (Expr gold) (Text target) = False"
| "compare_single_extraction expr_eq (Text gold) (Expr target) = False"

definition mv_verify :: "('e \<Rightarrow> 'e \<Rightarrow> bool) \<Rightarrow> 'e extracted list verify_fn" where
  "mv_verify expr_eq gold target =
     Inr (case target of
            Str s \<Rightarrow> list_ex (\<lambda>g. compare_single_extraction expr_eq g (Text s)) gold
          | _ \<Rightarrow> False)"

section \<open>Filtering and saving the dataset\<close>

text \<open>
  A dataset is the list of its rows. \<^verbatim>\<open>Dataset.map\<close> applies the function to each
  row in order and updates the row with the dict it returns; \<^verbatim>\<open>Dataset.filter\<close>
  keeps the rows on which the function is true; an exception of the function ends
  either. \<^verbatim>\<open>save_to_disk\<close> stores the rows under the given path.
\<close>

fun dataset_map :: "(example \<Rightarrow> exn + example) \<Rightarrow> example list \<Rightarrow> exn + example list" where
  "dataset_map f [] = Inr []"
| "dataset_map f (x # xs) =
     (case f x of
        Inl e \<Rightarrow> Inl e
      | Inr y \<Rightarrow>
          (case dataset_map f xs of
             Inl e \<Rightarrow> Inl e
           | Inr ys \<Rightarrow> Inr ((x ++ y) # ys)))"

fun dataset_filter :: "(example \<Rightarrow> exn + bool) \<Rightarrow> example list \<Rightarrow> exn + example list" where
  "dataset_filter f [] = Inr []"
| "dataset_filter f (x # xs) =
     (case f x of
        Inl e \<Rightarrow> Inl e
      | Inr keep \<Rightarrow>
          (case dataset_filter f xs of
             Inl e \<Rightarrow> Inl e
           | Inr ys \<Rightarrow> Inr (if keep then x # ys else ys)))"

definition save_to_disk :: "example list \<Rightarrow> string \<Rightarrow> world \<Rightarrow> world" where
  "save_to_disk rows path w = w\<lparr>disk := (disk w)(path \<mapsto> rows)\<rparr>"

text \<open>\<^verbatim>\<open>lambda x: not x["filtered"]\<close>\<close>

definition not_filtered :: "example \<Rightarrow> exn + bool" where
  "not_filtered x =
     (case getitem x ''filtered'' of Inl e \<Rightarrow> Inl e | Inr v \<Rightarrow> Inr (\<not> truthy v))"

text \<open>
  \<^verbatim>\<open>
  sample_dataset = sample_dataset.map(filter_reasoning_trace, desc="Filtering reasoning traces")

  # filter out the invalid reasoning traces
  filtered_dataset = sample_dataset.filter(lambda x: not x["filtered"])

  # save the filtered dataset
  filtered_dataset.save_to_disk("filtered_dataset")
  \<close>
  The cell returns the two datasets it binds (the intermediate \<^verbatim>\<open>sample_dataset\<close> and
  \<^verbatim>\<open>filtered_dataset\<close>) and the world after saving.
\<close>

definition filter_cell ::
  "'p parse_fn \<Rightarrow> 'p verify_fn \<Rightarrow> example list \<Rightarrow> world \<Rightarrow> exn + (example list \<times> example list \<times> world)" where
  "filter_cell parse verify sample_dataset w =
     (case dataset_map (filter_reasoning_trace parse verify) sample_dataset of
        Inl e \<Rightarrow> Inl e
      | Inr sample_dataset' \<Rightarrow>
          (case dataset_filter not_filtered sample_dataset' of
             Inl e \<Rightarrow> Inl e
           | Inr filtered_dataset \<Rightarrow>
               Inr (sample_dataset', filtered_dataset,
                    save_to_disk filtered_dataset ''filtered_dataset'' w)))"

section \<open>Concrete inputs\<close>

text \<open>
  Rows, collaborators and a world on which the theorems below are instantiated: a row
  with the problem \<^verbatim>\<open>2+2=?\<close>, the answer \<^verbatim>\<open>4\<close> and a given trace; collaborators that
  answer with a fixed verdict, and collaborators that raise; a client that streams a
  well-formed trace in two chunks.
\<close>

definition boxed4 :: string where
  "boxed4 = ''<think>adding</think>'' @ [CHR 0x5C] @ ''boxed{4}''"

definition problem0 :: example where
  "problem0 = [''problem'' \<mapsto> Str ''2+2=?'', ''answer'' \<mapsto> Str ''4'']"

definition row0 :: "string \<Rightarrow> example" where
  "row0 t = [''problem'' \<mapsto> Str ''2+2=?'', ''answer'' \<mapsto> Str ''4'', ''reasoning_trace'' \<mapsto> Str t]"

definition row_valid :: example where
  "row_valid = (row0 boxed4)(''filtered'' \<mapsto> Bool False, ''filtered_reason'' \<mapsto> Str ''VALID'')"

definition row_invalid :: example where
  "row_invalid =
     (row0 ''no tags'')(''filtered'' \<mapsto> Bool True, ''filtered_reason'' \<mapsto> Str ''INVALID_FORMAT'')"

definition parse0 :: "unit parse_fn" where
  "parse0 t cfg m = Inr ()"

definition verify0 :: "bool \<Rightarrow> unit verify_fn" where
  "verify0 b p g = Inr b"

definition raising_parse :: "unit parse_fn" where
  "raising_parse t cfg m = Inl (ServiceError ''parse'')"

definition raising_verify :: "unit verify_fn" where
  "raising_verify p g = Inl (ServiceError ''verify'')"

text \<open>
  An extraction that finds nothing, and a verification that looks the ground truth up
  among the extracted strings (so it is false when nothing was extracted).
\<close>

definition parse_nothing :: "string list parse_fn" where
  "parse_nothing t cfg m = Inr []"

definition verify_member :: "string list verify_fn" where
  "verify_member p g = Inr (g \<in> Str ` set p)"

text \<open>
  A trace whose boxed answer is \<^verbatim>\<open>9.80\<close>, what \<^verbatim>\<open>parse\<close> extracts from it (the
  number and its string), and a row holding it with the ground truth \<^verbatim>\<open>9.8\<close>.
\<close>

definition trace980 :: string where
  "trace980 = ''<think>compare</think>'' @ [CHR 0x5C] @ ''boxed{9.80}''"

definition parse980 :: "rat extracted list parse_fn" where
  "parse980 t cfg m = Inr [Expr 9.80, Text ''9.80'']"

definition row980 :: example where
  "row980 = [''answer'' \<mapsto> Str ''9.8'', ''reasoning_trace'' \<mapsto> Str trace980]"

definition world0 :: world where
  "world0 = \<lparr>requests = [], stdout = [], disk = Map.empty\<rparr>"

definition client0 :: client where
  "client0 n req =
     Inr ([chunk_of (Some ''<think>adding</think>''), chunk_of (Some ([CHR 0x5C] @ ''boxed{4}''))],
          StopIteration)"

section \<open>Lemmas on the format check\<close>

lemma compile_pattern:
  "compile pattern = Bol # literal ''<think>'' @ LazyStar Dot # literal ''</think>''"
  by (simp add: pattern_def atom_of_def)

lemma match_literal:
  "match_here f (literal w @ ps) prev s =
     (if prefix w s then match_here f ps (if w = [] then prev else Some (last w)) (drop (length w) s)
      else None)"
proof (induction w arbitrary: prev s)
  case Nil
  then show ?case by simp
next
  case (Cons a w)
  show ?case
  proof (cases s)
    case Nil
    then show ?thesis by simp
  next
    case (Cons c s')
    then show ?thesis using Cons.IH [of "Some a" s'] by auto
  qed
qed

lemma match_literal_only:
  "match_here f (literal w) prev s = (if prefix w s then Some (drop (length w) s) else None)"
  using match_literal [of f w "[]" prev s] by simp

lemma match_lazy_dot:
  "DOTALL f \<Longrightarrow>
   (match_here f (LazyStar Dot # literal w) prev s \<noteq> None) = sublist w s"
proof (induction s arbitrary: prev)
  case Nil
  then show ?case by (simp add: match_literal_only)
next
  case (Cons c s)
  show ?case
    using Cons.IH [OF Cons.prems, of "Some c"] Cons.prems
    by (simp add: match_literal_only sublist_Cons_right)
qed

lemma prefix_then_sublist:
  "(prefix a t \<and> sublist b (drop (length a) t)) = (\<exists>u v. t = a @ u @ b @ v)"
proof
  assume "prefix a t \<and> sublist b (drop (length a) t)"
  then obtain r u v where "t = a @ r" and "drop (length a) t = u @ b @ v"
    by (auto simp: prefix_def sublist_def)
  then have "t = a @ u @ b @ v" by simp
  then show "\<exists>u v. t = a @ u @ b @ v" by blast
next
  assume "\<exists>u v. t = a @ u @ b @ v"
  then obtain u v where "t = a @ u @ b @ v" by blast
  then show "prefix a t \<and> sublist b (drop (length a) t)"
    by (auto simp: sublist_def)
qed

lemma re_match_pattern:
  assumes d: "DOTALL f"
  shows "(re_match pattern t f \<noteq> None) = (\<exists>u v. t = ''<think>'' @ u @ ''</think>'' @ v)"
proof -
  have "(re_match pattern t f \<noteq> None) =
        (prefix ''<think>'' t \<and> sublist ''</think>'' (drop (length ''<think>'') t))"
    unfolding re_match_def compile_pattern
    using match_literal [of f "''<think>''" "LazyStar Dot # literal ''</think>''" None t]
          match_lazy_dot [OF d, of "''</think>''" "Some CHR ''>''" "drop (length ''<think>'') t"]
    by (simp add: at_bol_def)
  then show ?thesis
    using prefix_then_sublist [of "''<think>''" t "''</think>''"] by simp
qed

lemma occurrences_positions:
  "occurrences sub s = card {i. i \<le> length s \<and> prefix sub (drop i s)}"
proof (induction s)
  case Nil
  have "{i. i \<le> length ([]::string) \<and> prefix sub (drop i [])} = (if sub = [] then {0} else {})"
    by auto
  then show ?case by simp
next
  case (Cons c s)
  let ?A = "{i. i \<le> length s \<and> prefix sub (drop i s)}"
  let ?Z = "(if prefix sub (c # s) then {0::nat} else {})"
  have split: "{i. i \<le> length (c # s) \<and> prefix sub (drop i (c # s))} = ?Z \<union> Suc ` ?A"
  proof (rule set_eqI)
    fix i
    show "(i \<in> {i. i \<le> length (c # s) \<and> prefix sub (drop i (c # s))}) = (i \<in> ?Z \<union> Suc ` ?A)"
      by (cases i) (auto simp: image_iff)
  qed
  have fin: "finite ?A" by simp
  have disj: "?Z \<inter> Suc ` ?A = {}" by auto
  have "card (?Z \<union> Suc ` ?A) = card ?Z + card (Suc ` ?A)"
    using fin disj by (intro card_Un_disjoint) auto
  also have "card (Suc ` ?A) = card ?A"
    by (simp add: card_image)
  finally show ?case
    using Cons.IH split by simp
qed

lemma occurrences_skip:
  "a \<notin> set p \<Longrightarrow> occurrences (a # r) (p @ s) = occurrences (a # r) s"
  by (induction p) auto

lemma occurrences_append_ge: "occurrences sub s \<le> occurrences sub (p @ s)"
  by (induction p) auto

lemma occurrences_at_front:
  "sub \<noteq> [] \<Longrightarrow> 1 + occurrences sub s \<le> occurrences sub (sub @ s)"
proof -
  assume "sub \<noteq> []"
  then obtain a r where sub: "sub = a # r" by (cases sub) auto
  have "occurrences sub (sub @ s) = 1 + occurrences sub (r @ s)"
    by (simp add: sub)
  then show ?thesis
    using occurrences_append_ge [of sub s r] by simp
qed

lemma occurrences_pos_sublist: "0 < occurrences sub s \<Longrightarrow> sublist sub s"
  by (induction s) (auto simp: sublist_Cons_right split: if_splits)

lemma str_count_occurrences:
  "a \<notin> set r \<Longrightarrow> str_count s (a # r) = occurrences (a # r) s"
proof (induction s rule: length_induct)
  case (1 s)
  note IH = "1.IH" and a = "1.prems"
  show ?case
  proof (cases "s = []")
    case True
    then show ?thesis by (simp add: str_count.simps)
  next
    case ne: False
    show ?thesis
    proof (cases "prefix (a # r) s")
      case True
      then obtain s' where s: "s = a # r @ s'" by (auto simp: prefix_def)
      have "str_count s (a # r) = 1 + str_count s' (a # r)"
        by (subst str_count.simps) (simp add: s)
      also have "str_count s' (a # r) = occurrences (a # r) s'"
        using IH a by (simp add: s)
      also have "1 + occurrences (a # r) s' = occurrences (a # r) s"
        using occurrences_skip [OF a, of r s'] by (simp add: s)
      finally show ?thesis .
    next
      case False
      obtain c s' where s: "s = c # s'" using ne by (cases s) auto
      have "str_count s (a # r) = str_count (tl s) (a # r)"
        using False ne by (subst str_count.simps) simp
      then have "str_count s (a # r) = str_count s' (a # r)"
        by (simp add: s)
      also have "\<dots> = occurrences (a # r) s'"
        using IH a by (simp add: s)
      also have "\<dots> = occurrences (a # r) s"
        using False by (simp add: s)
      finally show ?thesis .
    qed
  qed
qed

lemma str_count_open: "str_count t ''<think>'' = occurrences ''<think>'' t"
  by (rule str_count_occurrences) simp

lemma str_count_close: "str_count t ''</think>'' = occurrences ''</think>'' t"
  by (rule str_count_occurrences) simp

lemma check_format_iff:
  "check_format t =
     ((\<exists>u v. t = ''<think>'' @ u @ ''</think>'' @ v) \<and>
      occurrences ''<think>'' t = 1 \<and> occurrences ''</think>'' t = 1)"
proof -
  let ?f = "\<lparr>DOTALL = True, MULTILINE = True\<rparr>"
  have m: "(re_match pattern t ?f \<noteq> None) = (\<exists>u v. t = ''<think>'' @ u @ ''</think>'' @ v)"
    by (rule re_match_pattern) simp
  have "check_format t =
        (re_match pattern t ?f \<noteq> None \<and>
         occurrences ''<think>'' t = 1 \<and> occurrences ''</think>'' t = 1)"
    unfolding check_format_def tags_def
    by (simp only: tags_loop.simps str_count_open str_count_close) auto
  then show ?thesis
    by (simp only: m)
qed

lemma check_format_example: "check_format ''<think>reasoning</think>final answer''"
proof -
  have "''<think>reasoning</think>final answer'' = ''<think>'' @ ''reasoning'' @ ''</think>'' @ ''final answer''"
    by simp
  then have "\<exists>u v. ''<think>reasoning</think>final answer'' = ''<think>'' @ u @ ''</think>'' @ v"
    by blast
  moreover have "occurrences ''<think>'' ''<think>reasoning</think>final answer'' = 1"
    by simp
  moreover have "occurrences ''</think>'' ''<think>reasoning</think>final answer'' = 1"
    by simp
  ultimately show ?thesis
    by (simp only: check_format_iff)
qed

lemma occurrences_twice:
  assumes "sub \<noteq> []"
  shows "2 \<le> occurrences sub (a @ sub @ b @ sub @ c)"
proof -
  have "1 + occurrences sub c \<le> occurrences sub (sub @ c)"
    using assms by (rule occurrences_at_front)
  then have "1 \<le> occurrences sub (b @ sub @ c)"
    using occurrences_append_ge [of sub "sub @ c" b] by simp
  moreover have "1 + occurrences sub (b @ sub @ c) \<le> occurrences sub (sub @ b @ sub @ c)"
    using assms by (rule occurrences_at_front)
  ultimately have "2 \<le> occurrences sub (sub @ b @ sub @ c)" by simp
  then show ?thesis
    using occurrences_append_ge [of sub "sub @ b @ sub @ c" a] by simp
qed

lemma check_format_two_opening: "\<not> check_format (a @ ''<think>'' @ b @ ''<think>'' @ c)"
  using occurrences_twice [of "''<think>''" a b c]
  by (simp only: check_format_iff) simp

lemma check_format_needs_prefix: "check_format t \<Longrightarrow> prefix ''<think>'' t"
  by (auto simp only: check_format_iff prefix_def)

lemma check_format_leading_text:
  assumes "p \<noteq> []"
  shows "\<not> check_format (p @ ''<think>'' @ r)"
proof
  assume cf: "check_format (p @ ''<think>'' @ r)"
  obtain x p' where p: "p = x # p'" using assms by (cases p) auto
  have pre: "prefix ''<think>'' (p @ ''<think>'' @ r)"
    using cf by (rule check_format_needs_prefix)
  have "1 \<le> occurrences ''<think>'' (''<think>'' @ r)"
    using occurrences_at_front [of "''<think>''" r] by simp
  then have "1 \<le> occurrences ''<think>'' (p' @ ''<think>'' @ r)"
    using occurrences_append_ge [of "''<think>''" "''<think>'' @ r" p'] by simp
  moreover have "occurrences ''<think>'' (p @ ''<think>'' @ r) =
                 1 + occurrences ''<think>'' (p' @ ''<think>'' @ r)"
    using pre unfolding p by (simp only: append_Cons occurrences.simps if_True)
  ultimately have "2 \<le> occurrences ''<think>'' (p @ ''<think>'' @ r)" by simp
  moreover have "occurrences ''<think>'' (p @ ''<think>'' @ r) = 1"
    using cf by (simp only: check_format_iff)
  ultimately show False by simp
qed

lemma closing_after_opening:
  assumes "prefix ''<think>'' t" and "occurrences ''</think>'' t = 1"
  shows "\<exists>u v. t = ''<think>'' @ u @ ''</think>'' @ v"
proof -
  obtain r where t: "t = ''<think>'' @ r" using assms(1) by (auto simp: prefix_def)
  have "occurrences ''</think>'' (''think>'' @ r) = occurrences ''</think>'' r"
    by (rule occurrences_skip) simp
  then have "occurrences ''</think>'' t = occurrences ''</think>'' r"
    by (simp add: t)
  then have "sublist ''</think>'' r"
    using assms(2) by (intro occurrences_pos_sublist) simp
  then obtain u v where "r = u @ ''</think>'' @ v" by (auto simp: sublist_def)
  then have "t = ''<think>'' @ u @ ''</think>'' @ v" by (simp add: t)
  then show ?thesis by blast
qed

lemma check_format_eq_spec: "check_format t = check_format_spec t"
  unfolding check_format_spec_def
  using closing_after_opening [of t]
  by (auto simp only: check_format_iff prefix_def)

lemma match_here_flags:
  "Bol \<notin> set ps \<Longrightarrow> DOTALL f = DOTALL g \<Longrightarrow> match_here f ps prev s = match_here g ps prev s"
proof (induction f ps prev s rule: match_here.induct)
  case (1 f prev s)
  then show ?case by simp
next
  case (2 f ps prev s)
  then show ?case by simp
next
  case (3 f a ps prev)
  then show ?case by simp
next
  case (4 f a ps prev c s)
  have "atom_matches f a c = atom_matches g a c"
    using "4.prems" by (cases a) auto
  then show ?case using 4 by simp
next
  case (5 f a ps prev s)
  have am: "\<And>c. atom_matches f a c = atom_matches g a c"
    using "5.prems" by (cases a) auto
  have h1: "match_here f ps prev s = match_here g ps prev s"
    using 5 by simp
  show ?case
  proof (cases "match_here f ps prev s")
    case (Some r)
    then show ?thesis using h1 by simp
  next
    case None
    show ?thesis
    proof (cases s)
      case Nil
      then show ?thesis using h1 None by simp
    next
      case (Cons c s')
      show ?thesis
      proof (cases "atom_matches f a c")
        case True
        then have "match_here f (LazyStar a # ps) (Some c) s' = match_here g (LazyStar a # ps) (Some c) s'"
          using "5.IH"(2) [OF None Cons True] "5.prems" by simp
        then show ?thesis using h1 None Cons True am by simp
      next
        case False
        then show ?thesis using h1 None Cons am by simp
      qed
    qed
  qed
qed

lemma re_match_multiline:
  "re_match pattern t \<lparr>DOTALL = True, MULTILINE = False\<rparr> =
   re_match pattern t \<lparr>DOTALL = True, MULTILINE = True\<rparr>"
proof -
  let ?ps = "literal ''<think>'' @ LazyStar Dot # literal ''</think>''"
  have "Bol \<notin> set ?ps" by simp
  then have "match_here \<lparr>DOTALL = True, MULTILINE = False\<rparr> ?ps None t =
             match_here \<lparr>DOTALL = True, MULTILINE = True\<rparr> ?ps None t"
    by (rule match_here_flags) simp
  then show ?thesis
    unfolding re_match_def compile_pattern
    by (simp add: at_bol_def)
qed


section \<open>Lemmas on the stream accumulator\<close>

lemma for_loop_processed:
  "for_loop acc chs fin =
     (acc @ fragments (processed chs),
      if list_all has_choice chs
      then (case fin of StopIteration \<Rightarrow> None | Raises e \<Rightarrow> Some (FromIterator, e))
      else Some (FromBody, IndexError))"
proof (induction chs arbitrary: acc)
  case Nil
  then show ?case by (cases fin) (simp_all add: fragments_def processed_def)
next
  case (Cons ch chs)
  show ?case
  proof (cases "choices ch")
    case Nil
    then show ?thesis
      by (simp add: first_choice_def fragments_def processed_def has_choice_def)
  next
    case (Cons c cs)
    then show ?thesis
      using Cons.IH
      by (cases "content (delta c)")
         (simp_all add: first_choice_def fragments_def processed_def has_choice_def)
  qed
qed

lemma processed_all: "list_all has_choice chs \<Longrightarrow> processed chs = chs"
  by (simp add: processed_def list_all_iff)

lemma fragments_processed_prefix: "prefix (fragments (processed chs)) (fragments chs)"
proof -
  have "chs = takeWhile has_choice chs @ dropWhile has_choice chs" by simp
  then have "fragments chs = fragments (processed chs) @ fragments (dropWhile has_choice chs)"
    unfolding fragments_def processed_def
    by (metis concat_append map_append)
  then show ?thesis by (simp add: prefix_def)
qed

lemma process_streaming_response_trace:
  "fst (process_streaming_response (chs, fin) out) = fragments (processed chs)"
  by (simp add: process_streaming_response_def for_loop_processed split: ending.splits)

lemma process_streaming_response_raises:
  "list_all has_choice chs \<Longrightarrow>
   process_streaming_response (chs, Raises e) out =
     (fragments chs, out @ [''Error occurred: '' @ exn_str e])"
  by (simp add: process_streaming_response_def for_loop_processed processed_all)

lemma process_streaming_response_stops:
  "list_all has_choice chs \<Longrightarrow>
   process_streaming_response (chs, StopIteration) out = (fragments chs, out)"
  by (simp add: process_streaming_response_def for_loop_processed processed_all)

lemma process_streaming_response_index_error:
  "\<not> list_all has_choice chs \<Longrightarrow>
   process_streaming_response (chs, fin) out =
     (fragments (processed chs), out @ [''Error occurred: list index out of range''])"
  by (simp add: process_streaming_response_def for_loop_processed)

lemma fragments_skip_None:
  "fragments (chs1 @ chunk_of None # chs2) = fragments (chs1 @ chs2)"
  by (simp add: fragments_def chunk_of_def)

lemma processed_skip_None:
  "fragments (processed (chs1 @ chunk_of None # chs2)) = fragments (processed (chs1 @ chs2))"
  by (induction chs1) (simp_all add: processed_def fragments_def chunk_of_def has_choice_def)

lemma fragments_Some: "fragments (map (\<lambda>d. chunk_of (Some d)) ds) = concat ds"
  by (induction ds) (simp_all add: fragments_def chunk_of_def)

lemma check_format_truncated: "\<not> check_format ''<think>foo''"
  by (simp only: check_format_iff) simp


lemma for_loop_from_iterator:
  "(snd (for_loop acc chs fin) = Some (FromIterator, e)) = (fin = Raises e \<and> list_all has_choice chs)"
  by (cases fin) (simp_all add: for_loop_processed)

lemma all_choices: "(\<forall>c\<in>set chs. choices c \<noteq> []) = list_all has_choice (chs :: chunk list)"
  by (simp add: list_all_iff has_choice_def)

lemma processed_takeWhile: "processed chs = takeWhile (\<lambda>c. choices c \<noteq> []) chs"
proof -
  have "has_choice = (\<lambda>c. choices c \<noteq> [])"
    by (rule ext) (simp add: has_choice_def)
  then show ?thesis by (simp add: processed_def)
qed

section \<open>Lemmas on the validator and the requester\<close>

lemma filter_invalid_format:
  assumes "example ''reasoning_trace'' = Some (Str t)" and "example ''answer'' = Some g"
    and "\<not> check_format t"
  shows "filter_reasoning_trace parse verify example =
           Inr (example(''filtered'' \<mapsto> Bool True, ''filtered_reason'' \<mapsto> Str ''INVALID_FORMAT''))"
  using assms by (simp add: filter_reasoning_trace_def getitem_def)

lemma filter_incorrect_answer:
  assumes "example ''reasoning_trace'' = Some (Str t)" and "example ''answer'' = Some g"
    and "check_format t" and "calculate_answer parse verify t g = Inr False"
  shows "filter_reasoning_trace parse verify example =
           Inr (example(''filtered'' \<mapsto> Bool True, ''filtered_reason'' \<mapsto> Str ''INCORRECT_ANSWER''))"
  using assms by (simp add: filter_reasoning_trace_def getitem_def)

lemma filter_valid:
  assumes "example ''reasoning_trace'' = Some (Str t)" and "example ''answer'' = Some g"
    and "check_format t" and "calculate_answer parse verify t g = Inr True"
  shows "filter_reasoning_trace parse verify example =
           Inr (example(''filtered'' \<mapsto> Bool False, ''filtered_reason'' \<mapsto> Str ''VALID''))"
  using assms by (simp add: filter_reasoning_trace_def getitem_def)

lemma filter_cases:
  assumes "filter_reasoning_trace parse verify example = Inr r"
  shows "r = example(''filtered'' \<mapsto> Bool True, ''filtered_reason'' \<mapsto> Str ''INVALID_FORMAT'') \<or>
         r = example(''filtered'' \<mapsto> Bool True, ''filtered_reason'' \<mapsto> Str ''INCORRECT_ANSWER'') \<or>
         r = example(''filtered'' \<mapsto> Bool False, ''filtered_reason'' \<mapsto> Str ''VALID'')"
  using assms
  by (auto simp: filter_reasoning_trace_def getitem_def
           split: option.splits sum.splits pyval.splits if_splits)

lemma filter_verdict:
  assumes "filter_reasoning_trace parse verify example = Inr r"
  shows "(r ''filtered'' = Some (Bool True) \<and> r ''filtered_reason'' = Some (Str ''INVALID_FORMAT'')) \<or>
         (r ''filtered'' = Some (Bool True) \<and> r ''filtered_reason'' = Some (Str ''INCORRECT_ANSWER'')) \<or>
         (r ''filtered'' = Some (Bool False) \<and> r ''filtered_reason'' = Some (Str ''VALID''))"
  using filter_cases [OF assms] by auto

lemma filter_frame:
  assumes "filter_reasoning_trace parse verify example = Inr r"
    and "k \<noteq> ''filtered''" and "k \<noteq> ''filtered_reason''"
  shows "r k = example k"
  using filter_cases [OF assms(1)] assms(2,3) by auto

lemma filter_dom:
  assumes "filter_reasoning_trace parse verify example = Inr r"
  shows "dom r = dom example \<union> {''filtered'', ''filtered_reason''}"
  using filter_cases [OF assms] by auto

lemma calculate_answer_calls:
  "parse t [\<lparr>normalization_config =
                 \<lparr>nits = False, malformed_operators = False, basic_latex = True,
                  equations = True, boxed = True, units = True\<rparr>,
               boxed_match_priority = 0,
               try_extract_without_anchor = False\<rparr>] first_match = Inr p \<Longrightarrow>
   calculate_answer parse verify t g = verify p g"
  by (simp add: calculate_answer_def)

lemma filter_total:
  assumes "example ''reasoning_trace'' = Some (Str t)" and "example ''answer'' = Some g"
    and "calculate_answer parse verify t g = Inr b"
  shows "\<exists>r. filter_reasoning_trace parse verify example = Inr r"
  using assms by (simp add: filter_reasoning_trace_def getitem_def)

lemma py_format_template:
  "py_format PROMPT_TEMPLATE [(''problem'', v)] =
     Inr (''Please reason step by step, and put your final answer within ''
          @ [CHR 0x5C] @ ''boxed{}. '' @ py_str v)"
  by (simp add: PROMPT_TEMPLATE_def py_format.simps prepend_def Let_def)

lemma distill_unfold:
  assumes "example ''problem'' = Some v"
  shows "distill_data_from_r1 client example w =
     (let req = \<lparr>model = ''nvdev/deepseek-ai/deepseek-r1'',
                 messages = [[(''role'', ''user''),
                              (''content'', ''Please reason step by step, and put your final answer within ''
                                            @ [CHR 0x5C] @ ''boxed{}. '' @ py_str v)]],
                 temperature = 0.6, top_p = 0.7, max_tokens = 32768, timeout = 10000,
                 stream = True\<rparr>;
          w' = w\<lparr>requests := requests w @ [req]\<rparr>
      in case client (length (requests w)) req of
           Inl e \<Rightarrow> (Inl e, w')
         | Inr completion \<Rightarrow>
             (Inr (example(''reasoning_trace'' \<mapsto>
                     Str (fst (process_streaming_response completion (stdout w))))),
              w'\<lparr>stdout := snd (process_streaming_response completion (stdout w))\<rparr>))"
  using assms
  by (simp add: distill_data_from_r1_def getitem_def py_format_template create_def Let_def
           split: sum.splits prod.splits)

lemma distill_requests:
  assumes "example ''problem'' = Some v"
  shows "requests (snd (distill_data_from_r1 client example w)) =
     requests w @
       [\<lparr>model = ''nvdev/deepseek-ai/deepseek-r1'',
         messages = [[(''role'', ''user''),
                      (''content'', ''Please reason step by step, and put your final answer within ''
                                    @ [CHR 0x5C] @ ''boxed{}. '' @ py_str v)]],
         temperature = 0.6, top_p = 0.7, max_tokens = 32768, timeout = 10000,
         stream = True\<rparr>]"
  by (simp add: distill_unfold [where example = example and v = v, OF assms] Let_def split: sum.splits)

lemma distill_no_problem:
  assumes "example ''problem'' = None"
  shows "distill_data_from_r1 client example w = (Inl (KeyError ''problem''), w)"
  using assms by (simp add: distill_data_from_r1_def getitem_def)

lemma distill_result:
  assumes "distill_data_from_r1 client example w = (Inr r, w')"
  shows "\<exists>t. r = example(''reasoning_trace'' \<mapsto> Str t)"
proof (cases "example ''problem''")
  case None
  then show ?thesis using assms by (simp add: distill_no_problem)
next
  case (Some v)
  show ?thesis
    using assms unfolding distill_unfold [where example = example and v = v, OF Some]
    by (auto simp: Let_def split: sum.splits)
qed

section \<open>Lemmas on filtering the dataset\<close>

lemma dataset_map_rows:
  "dataset_map f ds = Inr sd \<Longrightarrow> list_all2 (\<lambda>x r. \<exists>y. f x = Inr y \<and> r = x ++ y) ds sd"
proof (induction ds arbitrary: sd)
  case Nil
  then show ?case by simp
next
  case (Cons x ds)
  then show ?case by (auto split: sum.splits)
qed

lemma dataset_map_total:
  "(\<And>x. x \<in> set ds \<Longrightarrow> \<exists>y. f x = Inr y) \<Longrightarrow> \<exists>sd. dataset_map f ds = Inr sd"
proof (induction ds)
  case Nil
  then show ?case by simp
next
  case (Cons x ds)
  obtain y where y: "f x = Inr y" using Cons.prems [of x] by auto
  obtain sd where "dataset_map f ds = Inr sd" using Cons by auto
  then show ?case using y by simp
qed

lemma filter_result_update:
  assumes "filter_reasoning_trace parse verify x = Inr y"
  shows "x ++ y = y"
proof (rule ext)
  fix k
  show "(x ++ y) k = y k"
  proof (cases "y k")
    case None
    have "k \<notin> dom y" using None by auto
    then have "k \<notin> dom x" using filter_dom [OF assms] by auto
    then show ?thesis using None by (auto simp: map_add_def)
  next
    case (Some v)
    then show ?thesis by (simp add: map_add_def)
  qed
qed

lemma dataset_map_filter_rows:
  assumes "dataset_map (filter_reasoning_trace parse verify) ds = Inr sd"
  shows "list_all2 (\<lambda>x r. filter_reasoning_trace parse verify x = Inr r) ds sd"
proof -
  have "list_all2 (\<lambda>x r. \<exists>y. filter_reasoning_trace parse verify x = Inr y \<and> r = x ++ y) ds sd"
    using assms by (rule dataset_map_rows)
  then show ?thesis
    by (rule list_all2_mono) (auto simp: filter_result_update)
qed

lemma dataset_filter_not_filtered:
  "(\<And>r. r \<in> set sd \<Longrightarrow> r ''filtered'' = Some (Bool True) \<or> r ''filtered'' = Some (Bool False)) \<Longrightarrow>
   dataset_filter not_filtered sd = Inr (filter (\<lambda>r. r ''filtered'' = Some (Bool False)) sd)"
proof (induction sd)
  case Nil
  then show ?case by simp
next
  case (Cons r sd)
  have "r ''filtered'' = Some (Bool True) \<or> r ''filtered'' = Some (Bool False)"
    using Cons.prems [of r] by simp
  then have nf: "not_filtered r = Inr (r ''filtered'' = Some (Bool False))"
    by (auto simp: not_filtered_def getitem_def)
  have "dataset_filter not_filtered sd = Inr (filter (\<lambda>r. r ''filtered'' = Some (Bool False)) sd)"
    using Cons by simp
  then show ?case
    using nf by simp
qed

lemma validated_rows_verdict:
  assumes "list_all2 (\<lambda>x r. filter_reasoning_trace parse verify x = Inr r) ds sd" and "r \<in> set sd"
  shows "\<exists>x. x \<in> set ds \<and> filter_reasoning_trace parse verify x = Inr r"
proof -
  obtain i where i: "i < length sd" and r: "r = sd ! i"
    using assms(2) by (auto simp: in_set_conv_nth)
  have len: "length ds = length sd"
    using assms(1) by (rule list_all2_lengthD)
  have "filter_reasoning_trace parse verify (ds ! i) = Inr (sd ! i)"
    using assms(1) i len by (simp add: list_all2_conv_all_nth)
  moreover have "ds ! i \<in> set ds"
    using i len by simp
  ultimately show ?thesis
    using r by blast
qed

section \<open>The concrete inputs, evaluated\<close>

lemma row0_filter_invalid:
  "filter_reasoning_trace parse verify (row0 ''no tags'') =
     Inr ((row0 ''no tags'')(''filtered'' \<mapsto> Bool True, ''filtered_reason'' \<mapsto> Str ''INVALID_FORMAT''))"
proof -
  have "\<not> check_format ''no tags''"
    by (simp only: check_format_iff) simp
  then show ?thesis
    by (intro filter_invalid_format [where t = "''no tags''" and g = "Str ''4''"])
       (simp_all add: row0_def)
qed

lemma check_format_boxed: "check_format (''<think>adding</think>'' @ [CHR 0x5C] @ ''boxed{4}'')"
proof -
  have "\<exists>u v. ''<think>adding</think>'' @ [CHR 0x5C] @ ''boxed{4}'' = ''<think>'' @ u @ ''</think>'' @ v"
    by (intro exI [of _ "''adding''"] exI [of _ "[CHR 0x5C] @ ''boxed{4}''"]) simp
  moreover have "occurrences ''<think>'' (''<think>adding</think>'' @ [CHR 0x5C] @ ''boxed{4}'') = 1"
    by simp
  moreover have "occurrences ''</think>'' (''<think>adding</think>'' @ [CHR 0x5C] @ ''boxed{4}'') = 1"
    by simp
  ultimately show ?thesis
    by (simp only: check_format_iff)
qed

lemma row0_filter_incorrect:
  "filter_reasoning_trace parse0 (verify0 False) (row0 boxed4) =
     Inr ((row0 boxed4)(''filtered'' \<mapsto> Bool True, ''filtered_reason'' \<mapsto> Str ''INCORRECT_ANSWER''))"
  by (intro filter_incorrect_answer [where t = boxed4 and g = "Str ''4''"])
     (simp_all add: row0_def check_format_boxed [folded boxed4_def] calculate_answer_def parse0_def verify0_def)

lemma row0_filter_valid:
  "filter_reasoning_trace parse0 (verify0 True) (row0 boxed4) =
     Inr ((row0 boxed4)(''filtered'' \<mapsto> Bool False, ''filtered_reason'' \<mapsto> Str ''VALID''))"
  by (intro filter_valid [where t = boxed4 and g = "Str ''4''"])
     (simp_all add: row0_def check_format_boxed [folded boxed4_def] calculate_answer_def parse0_def verify0_def)

lemma filter_cell_rows0:
  "filter_cell parse0 (verify0 True) [row0 boxed4, row0 ''no tags''] world0 =
     Inr ([row_valid, row_invalid], [row_valid],
          save_to_disk [row_valid] ''filtered_dataset'' world0)"
proof -
  have v: "filter_reasoning_trace parse0 (verify0 True) (row0 boxed4) = Inr row_valid"
    unfolding row_valid_def by (rule row0_filter_valid)
  have i: "filter_reasoning_trace parse0 (verify0 True) (row0 ''no tags'') = Inr row_invalid"
    unfolding row_invalid_def by (rule row0_filter_invalid)
  have uv: "row0 boxed4 ++ row_valid = row_valid"
    using v by (rule filter_result_update)
  have ui: "row0 ''no tags'' ++ row_invalid = row_invalid"
    using i by (rule filter_result_update)
  have m: "dataset_map (filter_reasoning_trace parse0 (verify0 True)) [row0 boxed4, row0 ''no tags'']
           = Inr [row_valid, row_invalid]"
    by (simp add: v i uv ui)
  have nv: "not_filtered row_valid = Inr True"
    by (simp add: not_filtered_def getitem_def row_valid_def)
  have ni: "not_filtered row_invalid = Inr False"
    by (simp add: not_filtered_def getitem_def row_invalid_def)
  have f: "dataset_filter not_filtered [row_valid, row_invalid] = Inr [row_valid]"
    by (simp add: nv ni)
  show ?thesis
    by (simp only: filter_cell_def m f sum.case)
qed

section \<open>Lemmas on the verification library\<close>

lemma mv_verify_string:
  "mv_verify expr_eq [Expr e, Text s] (Str g) =
     Inr (strip s \<noteq> [] \<and> strip g \<noteq> [] \<and> strip s = strip g)"
  by (simp add: mv_verify_def)

lemma strip_980: "strip ''9.80'' = ''9.80''" and strip_98: "strip ''9.8'' = ''9.8''"
  and strip_185: "strip ''185'' = ''185''" and strip_180: "strip ''180'' = ''180''"
  by (simp_all add: strip_def is_space_def)

lemma check_format_trace980: "check_format trace980"
proof -
  have "\<exists>u v. trace980 = ''<think>'' @ u @ ''</think>'' @ v"
    unfolding trace980_def
    by (intro exI [of _ "''compare''"] exI [of _ "[CHR 0x5C] @ ''boxed{9.80}''"]) simp
  moreover have "occurrences ''<think>'' trace980 = 1"
    by (simp add: trace980_def)
  moreover have "occurrences ''</think>'' trace980 = 1"
    by (simp add: trace980_def)
  ultimately show ?thesis
    by (simp only: check_format_iff)
qed

section \<open>The claims\<close>

text \<open>
  \<^bold>\<open>Claim C1.\<close> For every string \<open>t\<close>, \<open>check_format t\<close> is true if and only if \<open>t\<close>
  matches the anchored pattern \<^verbatim>\<open>^<think>.*?</think>\<close> from position zero with the dot
  matching newlines, that is \<open>t\<close> is \<^verbatim>\<open><think>\<close>, any text, \<^verbatim>\<open></think>\<close>, any
  text, and each of the two tokens occurs exactly once in \<open>t\<close>. The trace
  \<^verbatim>\<open><think>reasoning</think>final answer\<close> passes; a trace with any text before its
  \<^verbatim>\<open><think>\<close> fails; a trace with two \<^verbatim>\<open><think>\<close> tokens fails.
\<close>

theorem C1_check_format:
  "(\<forall>t. check_format t =
      ((\<exists>u v. t = ''<think>'' @ u @ ''</think>'' @ v) \<and>
       occurrences ''<think>'' t = 1 \<and> occurrences ''</think>'' t = 1))
   \<and> check_format ''<think>reasoning</think>final answer''
   \<and> (\<forall>p r. p \<noteq> [] \<longrightarrow> \<not> check_format (p @ ''<think>'' @ r))
   \<and> (\<forall>a b c. \<not> check_format (a @ ''<think>'' @ b @ ''<think>'' @ c))"
proof (intro conjI allI impI)
  fix t
  show "check_format t =
      ((\<exists>u v. t = ''<think>'' @ u @ ''</think>'' @ v) \<and>
       occurrences ''<think>'' t = 1 \<and> occurrences ''</think>'' t = 1)"
    by (rule check_format_iff)
next
  show "check_format ''<think>reasoning</think>final answer''"
    by (rule check_format_example)
next
  fix p r :: string
  assume "p \<noteq> []"
  then show "\<not> check_format (p @ ''<think>'' @ r)"
    by (rule check_format_leading_text)
next
  fix a b c :: string
  show "\<not> check_format (a @ ''<think>'' @ b @ ''<think>'' @ c)"
    by (rule check_format_two_opening)
qed

theorem C1_check_format_witness:
  "'' '' \<noteq> [] \<and> \<not> check_format '' <think>reasoning</think>final answer''"
proof -
  have "'' '' \<noteq> [] \<longrightarrow> \<not> check_format ('' '' @ ''<think>'' @ ''reasoning</think>final answer'')"
    using C1_check_format by blast
  then show ?thesis by simp
qed

text \<open>
  \<^bold>\<open>Claim C2.\<close> Every record the validator \<open>filter_reasoning_trace\<close> produces satisfies:
  \<^verbatim>\<open>filtered\<close> is \<^verbatim>\<open>False\<close> if and only if \<^verbatim>\<open>filtered_reason\<close> is \<^verbatim>\<open>"VALID"\<close>, and
  \<^verbatim>\<open>filtered_reason\<close> is one of \<^verbatim>\<open>VALID\<close>, \<^verbatim>\<open>INVALID_FORMAT\<close>,
  \<^verbatim>\<open>INCORRECT_ANSWER\<close>. Each of the three is produced on some row (the witness).
\<close>

theorem C2_verdict_invariant:
  "filter_reasoning_trace parse verify example = Inr r \<Longrightarrow>
     ((r ''filtered'' = Some (Bool False)) = (r ''filtered_reason'' = Some (Str ''VALID'')))
     \<and> (r ''filtered_reason'' = Some (Str ''VALID'')
          \<or> r ''filtered_reason'' = Some (Str ''INVALID_FORMAT'')
          \<or> r ''filtered_reason'' = Some (Str ''INCORRECT_ANSWER''))
     \<and> (r ''filtered'' = Some (Bool True) \<or> r ''filtered'' = Some (Bool False))"
  using filter_verdict [of parse verify example r] by auto

theorem C2_verdict_invariant_witness:
  "filter_reasoning_trace parse0 (verify0 True) (row0 boxed4) =
     Inr ((row0 boxed4)(''filtered'' \<mapsto> Bool False, ''filtered_reason'' \<mapsto> Str ''VALID''))
   \<and> (((row0 boxed4)(''filtered'' \<mapsto> Bool False, ''filtered_reason'' \<mapsto> Str ''VALID'')) ''filtered''
          = Some (Bool False))
   \<and> (((row0 boxed4)(''filtered'' \<mapsto> Bool False, ''filtered_reason'' \<mapsto> Str ''VALID'')) ''filtered_reason''
          = Some (Str ''VALID''))
   \<and> filter_reasoning_trace parse0 (verify0 False) (row0 boxed4) =
     Inr ((row0 boxed4)(''filtered'' \<mapsto> Bool True, ''filtered_reason'' \<mapsto> Str ''INCORRECT_ANSWER''))
   \<and> filter_reasoning_trace parse0 (verify0 True) (row0 ''no tags'') =
     Inr ((row0 ''no tags'')(''filtered'' \<mapsto> Bool True, ''filtered_reason'' \<mapsto> Str ''INVALID_FORMAT''))"
  using C2_verdict_invariant [OF row0_filter_valid] row0_filter_valid row0_filter_incorrect
    row0_filter_invalid [of parse0 "verify0 True"]
  by simp

text \<open>
  \<^bold>\<open>Claim C3.\<close> On a row with a string \<^verbatim>\<open>reasoning_trace\<close> and a ground-truth
  \<^verbatim>\<open>answer\<close>, \<open>filter_reasoning_trace\<close> makes two checks in sequence and stops at the
  first that fails. When the format check fails the verdict is \<^verbatim>\<open>filtered=True\<close> with
  \<^verbatim>\<open>INVALID_FORMAT\<close>, whatever \<^verbatim>\<open>parse\<close> and \<^verbatim>\<open>verify\<close> are (they are not called:
  the verdict is the same with collaborators that raise). When the format check passes
  and the answer check returns false, whatever \<^verbatim>\<open>parse\<close> extracted, the verdict is
  \<^verbatim>\<open>filtered=True\<close> with \<^verbatim>\<open>INCORRECT_ANSWER\<close>. When both pass it is
  \<^verbatim>\<open>filtered=False\<close> with \<^verbatim>\<open>VALID\<close>. A failed check is a reason code on the returned
  record, not an exception: the validator returns a record whenever the format check
  fails or the answer check returns.
\<close>

theorem C3_sequential_checks:
  assumes rt: "example ''reasoning_trace'' = Some (Str t)" and an: "example ''answer'' = Some g"
  shows "(\<not> check_format t \<longrightarrow>
        filter_reasoning_trace parse verify example =
          Inr (example(''filtered'' \<mapsto> Bool True, ''filtered_reason'' \<mapsto> Str ''INVALID_FORMAT'')))
     \<and> (check_format t \<and> calculate_answer parse verify t g = Inr False \<longrightarrow>
        filter_reasoning_trace parse verify example =
          Inr (example(''filtered'' \<mapsto> Bool True, ''filtered_reason'' \<mapsto> Str ''INCORRECT_ANSWER'')))
     \<and> (check_format t \<and> calculate_answer parse verify t g = Inr True \<longrightarrow>
        filter_reasoning_trace parse verify example =
          Inr (example(''filtered'' \<mapsto> Bool False, ''filtered_reason'' \<mapsto> Str ''VALID'')))
     \<and> (\<forall>p. parse t [\<lparr>normalization_config =
                          \<lparr>nits = False, malformed_operators = False, basic_latex = True,
                           equations = True, boxed = True, units = True\<rparr>,
                        boxed_match_priority = 0,
                        try_extract_without_anchor = False\<rparr>] first_match = Inr p
              \<longrightarrow> calculate_answer parse verify t g = verify p g)
     \<and> ((\<exists>b. calculate_answer parse verify t g = Inr b) \<or> \<not> check_format t \<longrightarrow>
          (\<exists>r. filter_reasoning_trace parse verify example = Inr r))"
proof (intro conjI impI allI)
  assume "\<not> check_format t"
  then show "filter_reasoning_trace parse verify example =
        Inr (example(''filtered'' \<mapsto> Bool True, ''filtered_reason'' \<mapsto> Str ''INVALID_FORMAT''))"
    using rt an by (intro filter_invalid_format [where t = t and g = g])
next
  assume "check_format t \<and> calculate_answer parse verify t g = Inr False"
  then show "filter_reasoning_trace parse verify example =
        Inr (example(''filtered'' \<mapsto> Bool True, ''filtered_reason'' \<mapsto> Str ''INCORRECT_ANSWER''))"
    using rt an by (intro filter_incorrect_answer [where t = t and g = g]) simp_all
next
  assume "check_format t \<and> calculate_answer parse verify t g = Inr True"
  then show "filter_reasoning_trace parse verify example =
        Inr (example(''filtered'' \<mapsto> Bool False, ''filtered_reason'' \<mapsto> Str ''VALID''))"
    using rt an by (intro filter_valid [where t = t and g = g]) simp_all
next
  fix p
  assume "parse t [\<lparr>normalization_config =
                        \<lparr>nits = False, malformed_operators = False, basic_latex = True,
                         equations = True, boxed = True, units = True\<rparr>,
                      boxed_match_priority = 0,
                      try_extract_without_anchor = False\<rparr>] first_match = Inr p"
  then show "calculate_answer parse verify t g = verify p g"
    by (rule calculate_answer_calls)
next
  assume "(\<exists>b. calculate_answer parse verify t g = Inr b) \<or> \<not> check_format t"
  then show "\<exists>r. filter_reasoning_trace parse verify example = Inr r"
    using rt an by (auto simp: filter_reasoning_trace_def getitem_def)
qed

theorem C3_sequential_checks_witness:
  "filter_reasoning_trace raising_parse raising_verify (row0 ''no tags'') =
     Inr ((row0 ''no tags'')(''filtered'' \<mapsto> Bool True, ''filtered_reason'' \<mapsto> Str ''INVALID_FORMAT''))
   \<and> filter_reasoning_trace parse0 (verify0 False) (row0 boxed4) =
     Inr ((row0 boxed4)(''filtered'' \<mapsto> Bool True, ''filtered_reason'' \<mapsto> Str ''INCORRECT_ANSWER''))
   \<and> filter_reasoning_trace parse0 (verify0 True) (row0 boxed4) =
     Inr ((row0 boxed4)(''filtered'' \<mapsto> Bool False, ''filtered_reason'' \<mapsto> Str ''VALID''))
   \<and> filter_reasoning_trace parse_nothing verify_member (row0 boxed4) =
     Inr ((row0 boxed4)(''filtered'' \<mapsto> Bool True, ''filtered_reason'' \<mapsto> Str ''INCORRECT_ANSWER''))"
proof -
  have nt: "\<not> check_format ''no tags''"
    by (simp only: check_format_iff) simp
  have bx: "check_format boxed4"
    unfolding boxed4_def by (rule check_format_boxed)
  have a: "filter_reasoning_trace raising_parse raising_verify (row0 ''no tags'') =
     Inr ((row0 ''no tags'')(''filtered'' \<mapsto> Bool True, ''filtered_reason'' \<mapsto> Str ''INVALID_FORMAT''))"
    using C3_sequential_checks [where example = "row0 ''no tags''" and t = "''no tags''"
            and g = "Str ''4''" and parse = raising_parse and verify = raising_verify] nt
    by (simp add: row0_def)
  have b: "filter_reasoning_trace parse0 (verify0 False) (row0 boxed4) =
     Inr ((row0 boxed4)(''filtered'' \<mapsto> Bool True, ''filtered_reason'' \<mapsto> Str ''INCORRECT_ANSWER''))"
    using C3_sequential_checks [where example = "row0 boxed4" and t = boxed4
            and g = "Str ''4''" and parse = parse0 and verify = "verify0 False"] bx
    by (simp add: row0_def calculate_answer_def parse0_def verify0_def)
  have c: "filter_reasoning_trace parse0 (verify0 True) (row0 boxed4) =
     Inr ((row0 boxed4)(''filtered'' \<mapsto> Bool False, ''filtered_reason'' \<mapsto> Str ''VALID''))"
    using C3_sequential_checks [where example = "row0 boxed4" and t = boxed4
            and g = "Str ''4''" and parse = parse0 and verify = "verify0 True"] bx
    by (simp add: row0_def calculate_answer_def parse0_def verify0_def)
  have d: "filter_reasoning_trace parse_nothing verify_member (row0 boxed4) =
     Inr ((row0 boxed4)(''filtered'' \<mapsto> Bool True, ''filtered_reason'' \<mapsto> Str ''INCORRECT_ANSWER''))"
    using C3_sequential_checks [where example = "row0 boxed4" and t = boxed4
            and g = "Str ''4''" and parse = parse_nothing and verify = verify_member] bx
    by (simp add: row0_def calculate_answer_def parse_nothing_def verify_member_def)
  show ?thesis using a b c d by blast
qed

text \<open>
  \<^bold>\<open>Claim C4.\<close> When iterating the stream raises an exception (the \<^verbatim>\<open>try\<close> block
  is left by an exception that the iterator raised), \<open>process_streaming_response\<close>
  does not propagate it: it returns exactly the concatenation, in arrival order, of the
  text fragments of all chunks received before the failure, and prints the error. The
  loop gets to the failing read exactly when every chunk before it has a choice, which
  gives the second form of the statement. For every sequence of chunks the result is a
  string, the fragments of the chunks the loop got through, and a prefix of the
  fragments delivered: nothing is reordered and nothing is appended. If the stream
  delivers \<^verbatim>\<open><think>foo\<close> and then fails, the trace is exactly \<^verbatim>\<open><think>foo\<close>, on
  which the format check fails and the validator answers \<^verbatim>\<open>INVALID_FORMAT\<close>.
\<close>

theorem C4_truncated_stream:
  "(\<forall>chs fin e t out. for_loop [] chs fin = (t, Some (FromIterator, e)) \<longrightarrow>
       process_streaming_response (chs, fin) out =
         (fragments chs, out @ [''Error occurred: '' @ exn_str e]))
   \<and> (\<forall>chs e out. (\<forall>c\<in>set chs. choices c \<noteq> []) \<longrightarrow>
       process_streaming_response (chs, Raises e) out =
         (fragments chs, out @ [''Error occurred: '' @ exn_str e]))
   \<and> (\<forall>chs e out.
         fst (process_streaming_response (chs, Raises e) out) =
           fragments (takeWhile (\<lambda>c. choices c \<noteq> []) chs)
         \<and> prefix (fst (process_streaming_response (chs, Raises e) out)) (fragments chs))
   \<and> (\<forall>e out. process_streaming_response ([chunk_of (Some ''<think>foo'')], Raises e) out =
         (''<think>foo'', out @ [''Error occurred: '' @ exn_str e]))
   \<and> \<not> check_format ''<think>foo''
   \<and> (\<forall>parse verify example g. example ''answer'' = Some g \<longrightarrow>
         filter_reasoning_trace parse verify (example(''reasoning_trace'' \<mapsto> Str ''<think>foo'')) =
           Inr (example(''reasoning_trace'' \<mapsto> Str ''<think>foo'',
                        ''filtered'' \<mapsto> Bool True,
                        ''filtered_reason'' \<mapsto> Str ''INVALID_FORMAT'')))"
proof (intro conjI allI impI)
  fix chs :: "chunk list" and fin :: ending and e :: exn and t :: string and out :: "string list"
  assume "for_loop [] chs fin = (t, Some (FromIterator, e))"
  then have "snd (for_loop [] chs fin) = Some (FromIterator, e)" by simp
  then have "fin = Raises e" and "list_all has_choice chs"
    by (simp_all only: for_loop_from_iterator)
  then show "process_streaming_response (chs, fin) out =
         (fragments chs, out @ [''Error occurred: '' @ exn_str e])"
    by (simp only: process_streaming_response_raises)
next
  fix chs :: "chunk list" and e :: exn and out :: "string list"
  assume "\<forall>c\<in>set chs. choices c \<noteq> []"
  then have "list_all has_choice chs" by (simp only: all_choices)
  then show "process_streaming_response (chs, Raises e) out =
         (fragments chs, out @ [''Error occurred: '' @ exn_str e])"
    by (rule process_streaming_response_raises)
next
  fix chs :: "chunk list" and e :: exn and out :: "string list"
  show "fst (process_streaming_response (chs, Raises e) out) =
           fragments (takeWhile (\<lambda>c. choices c \<noteq> []) chs)"
    by (simp only: process_streaming_response_trace processed_takeWhile)
next
  fix chs :: "chunk list" and e :: exn and out :: "string list"
  show "prefix (fst (process_streaming_response (chs, Raises e) out)) (fragments chs)"
    by (simp only: process_streaming_response_trace fragments_processed_prefix)
next
  fix e :: exn and out :: "string list"
  have "list_all has_choice [chunk_of (Some ''<think>foo'')]"
    by (simp add: has_choice_def chunk_of_def)
  then have "process_streaming_response ([chunk_of (Some ''<think>foo'')], Raises e) out =
         (fragments [chunk_of (Some ''<think>foo'')], out @ [''Error occurred: '' @ exn_str e])"
    by (rule process_streaming_response_raises)
  then show "process_streaming_response ([chunk_of (Some ''<think>foo'')], Raises e) out =
         (''<think>foo'', out @ [''Error occurred: '' @ exn_str e])"
    by (simp add: fragments_def chunk_of_def)
next
  show "\<not> check_format ''<think>foo''"
    by (rule check_format_truncated)
next
  fix parse :: "'a parse_fn" and verify :: "'a verify_fn" and example :: example and g
  assume "example ''answer'' = Some g"
  then show "filter_reasoning_trace parse verify (example(''reasoning_trace'' \<mapsto> Str ''<think>foo'')) =
           Inr (example(''reasoning_trace'' \<mapsto> Str ''<think>foo'',
                        ''filtered'' \<mapsto> Bool True,
                        ''filtered_reason'' \<mapsto> Str ''INVALID_FORMAT''))"
    using check_format_truncated
    by (intro filter_invalid_format [where t = "''<think>foo''" and g = g]) simp_all
qed

theorem C4_truncated_stream_witness:
  "process_streaming_response
      ([chunk_of (Some ''<think>''), chunk_of None, chunk_of (Some ''foo'')],
       Raises (ServiceError ''peer closed connection'')) [] =
     (''<think>foo'', [''Error occurred: peer closed connection''])
   \<and> filter_reasoning_trace raising_parse raising_verify
        ([''answer'' \<mapsto> Str ''4'', ''reasoning_trace'' \<mapsto> Str ''<think>foo'']) =
       Inr [''answer'' \<mapsto> Str ''4'', ''reasoning_trace'' \<mapsto> Str ''<think>foo'',
            ''filtered'' \<mapsto> Bool True, ''filtered_reason'' \<mapsto> Str ''INVALID_FORMAT'']"
proof -
  let ?chs = "[chunk_of (Some ''<think>''), chunk_of None, chunk_of (Some ''foo'')]"
  have "for_loop [] ?chs (Raises (ServiceError ''peer closed connection'')) =
          (''<think>foo'', Some (FromIterator, ServiceError ''peer closed connection''))"
    by (simp add: first_choice_def chunk_of_def)
  moreover have "for_loop [] ?chs (Raises (ServiceError ''peer closed connection'')) =
          (''<think>foo'', Some (FromIterator, ServiceError ''peer closed connection'')) \<longrightarrow>
        process_streaming_response (?chs, Raises (ServiceError ''peer closed connection'')) [] =
          (fragments ?chs, [] @ [''Error occurred: '' @ exn_str (ServiceError ''peer closed connection'')])"
    using C4_truncated_stream by blast
  ultimately have "process_streaming_response (?chs, Raises (ServiceError ''peer closed connection'')) [] =
          (fragments ?chs, [] @ [''Error occurred: '' @ exn_str (ServiceError ''peer closed connection'')])"
    by blast
  then have a: "process_streaming_response (?chs, Raises (ServiceError ''peer closed connection'')) [] =
     (''<think>foo'', [''Error occurred: peer closed connection''])"
    by (simp add: chunk_of_def fragments_def)
  have "[''answer'' \<mapsto> Str ''4''] ''answer'' = Some (Str ''4'') \<longrightarrow>
        filter_reasoning_trace raising_parse raising_verify
          ([''answer'' \<mapsto> Str ''4''](''reasoning_trace'' \<mapsto> Str ''<think>foo'')) =
        Inr ([''answer'' \<mapsto> Str ''4''](''reasoning_trace'' \<mapsto> Str ''<think>foo'',
                        ''filtered'' \<mapsto> Bool True,
                        ''filtered_reason'' \<mapsto> Str ''INVALID_FORMAT''))"
    using C4_truncated_stream by blast
  then have b: "filter_reasoning_trace raising_parse raising_verify
        ([''answer'' \<mapsto> Str ''4'', ''reasoning_trace'' \<mapsto> Str ''<think>foo'']) =
       Inr [''answer'' \<mapsto> Str ''4'', ''reasoning_trace'' \<mapsto> Str ''<think>foo'',
            ''filtered'' \<mapsto> Bool True, ''filtered_reason'' \<mapsto> Str ''INVALID_FORMAT'']"
    by simp
  show ?thesis using a b by blast
qed

text \<open>
  \<^bold>\<open>Claim C5.\<close> \<open>calculate_answer\<close> asks \<^verbatim>\<open>parse\<close> for the final answer with a
  configuration that tries boxed content first and returns what \<^verbatim>\<open>verify\<close> answers
  on the extracted answer and the ground truth. The claim says that ground truth
  \<^verbatim>\<open>9.8\<close> with extracted boxed answer \<^verbatim>\<open>9.80\<close> is judged equivalent, and ground
  truth \<^verbatim>\<open>180\<close> with extracted \<^verbatim>\<open>185\<close> is judged non-equivalent. The code hands
  \<^verbatim>\<open>verify\<close> the ground truth as the string the row holds, without parsing it. With
  \<^verbatim>\<open>verify\<close> as documented, the extracted expression then matches nothing, and the
  verdict is the comparison of the extracted string with the ground-truth string:
  \<^verbatim>\<open>9.80\<close> against \<^verbatim>\<open>9.8\<close> is judged not equivalent, against the claim and against
  the comment of the source ("check if the answer is mathematically equivalent to the
  ground truth"); \<^verbatim>\<open>185\<close> against \<^verbatim>\<open>180\<close> is judged not equivalent, as claimed.
  Compared as expressions, \<^verbatim>\<open>9.80\<close> and \<^verbatim>\<open>9.8\<close> are equal and \<^verbatim>\<open>185\<close> and
  \<^verbatim>\<open>180\<close> are not.
\<close>

theorem C5_answer_check:
  "(\<forall>parse t e s g.
       parse t [\<lparr>normalization_config =
                   \<lparr>nits = False, malformed_operators = False, basic_latex = True,
                    equations = True, boxed = True, units = True\<rparr>,
                 boxed_match_priority = 0,
                 try_extract_without_anchor = False\<rparr>] first_match = Inr [Expr e, Text s] \<longrightarrow>
       calculate_answer parse (mv_verify expr_eq) t (Str g) =
         Inr (strip s \<noteq> [] \<and> strip g \<noteq> [] \<and> strip s = strip g))
   \<and> (\<forall>parse t e.
       parse t [\<lparr>normalization_config =
                   \<lparr>nits = False, malformed_operators = False, basic_latex = True,
                    equations = True, boxed = True, units = True\<rparr>,
                 boxed_match_priority = 0,
                 try_extract_without_anchor = False\<rparr>] first_match = Inr [Expr e, Text ''9.80''] \<longrightarrow>
       calculate_answer parse (mv_verify expr_eq) t (Str ''9.8'') = Inr False)
   \<and> (\<forall>parse t e.
       parse t [\<lparr>normalization_config =
                   \<lparr>nits = False, malformed_operators = False, basic_latex = True,
                    equations = True, boxed = True, units = True\<rparr>,
                 boxed_match_priority = 0,
                 try_extract_without_anchor = False\<rparr>] first_match = Inr [Expr e, Text ''185''] \<longrightarrow>
       calculate_answer parse (mv_verify expr_eq) t (Str ''180'') = Inr False)
   \<and> compare_single_extraction (=) (Expr (9.80 :: rat)) (Expr 9.8)
   \<and> \<not> compare_single_extraction (=) (Expr (185 :: rat)) (Expr 180)"
proof (intro conjI allI impI)
  fix parse :: "'a extracted list parse_fn" and t e s g
  assume "parse t [\<lparr>normalization_config =
                   \<lparr>nits = False, malformed_operators = False, basic_latex = True,
                    equations = True, boxed = True, units = True\<rparr>,
                 boxed_match_priority = 0,
                 try_extract_without_anchor = False\<rparr>] first_match = Inr [Expr e, Text s]"
  then have "calculate_answer parse (mv_verify expr_eq) t (Str g) =
               mv_verify expr_eq [Expr e, Text s] (Str g)"
    by (rule calculate_answer_calls)
  then show "calculate_answer parse (mv_verify expr_eq) t (Str g) =
         Inr (strip s \<noteq> [] \<and> strip g \<noteq> [] \<and> strip s = strip g)"
    by (simp only: mv_verify_string)
next
  fix parse :: "'a extracted list parse_fn" and t e
  assume "parse t [\<lparr>normalization_config =
                   \<lparr>nits = False, malformed_operators = False, basic_latex = True,
                    equations = True, boxed = True, units = True\<rparr>,
                 boxed_match_priority = 0,
                 try_extract_without_anchor = False\<rparr>] first_match = Inr [Expr e, Text ''9.80'']"
  then have "calculate_answer parse (mv_verify expr_eq) t (Str ''9.8'') =
               mv_verify expr_eq [Expr e, Text ''9.80''] (Str ''9.8'')"
    by (rule calculate_answer_calls)
  then show "calculate_answer parse (mv_verify expr_eq) t (Str ''9.8'') = Inr False"
    by (simp only: mv_verify_string strip_980 strip_98) simp
next
  fix parse :: "'a extracted list parse_fn" and t e
  assume "parse t [\<lparr>normalization_config =
                   \<lparr>nits = False, malformed_operators = False, basic_latex = True,
                    equations = True, boxed = True, units = True\<rparr>,
                 boxed_match_priority = 0,
                 try_extract_without_anchor = False\<rparr>] first_match = Inr [Expr e, Text ''185'']"
  then have "calculate_answer parse (mv_verify expr_eq) t (Str ''180'') =
               mv_verify expr_eq [Expr e, Text ''185''] (Str ''180'')"
    by (rule calculate_answer_calls)
  then show "calculate_answer parse (mv_verify expr_eq) t (Str ''180'') = Inr False"
    by (simp only: mv_verify_string strip_185 strip_180) simp
next
  show "compare_single_extraction (=) (Expr (9.80 :: rat)) (Expr 9.8)"
    by simp
next
  show "\<not> compare_single_extraction (=) (Expr (185 :: rat)) (Expr 180)"
    by simp
qed

theorem C5_answer_check_witness:
  "calculate_answer parse980 (mv_verify (=)) trace980 (Str ''9.8'') = Inr False
   \<and> filter_reasoning_trace parse980 (mv_verify (=)) row980 =
       Inr (row980(''filtered'' \<mapsto> Bool True, ''filtered_reason'' \<mapsto> Str ''INCORRECT_ANSWER''))"
proof -
  have p: "parse980 trace980
             [\<lparr>normalization_config =
                   \<lparr>nits = False, malformed_operators = False, basic_latex = True,
                    equations = True, boxed = True, units = True\<rparr>,
                 boxed_match_priority = 0,
                 try_extract_without_anchor = False\<rparr>] first_match = Inr [Expr 9.80, Text ''9.80'']"
    by (simp add: parse980_def)
  have a: "calculate_answer parse980 (mv_verify (=)) trace980 (Str ''9.8'') = Inr False"
    using C5_answer_check [where expr_eq = "(=) :: rat \<Rightarrow> rat \<Rightarrow> bool"] p by blast
  have "filter_reasoning_trace parse980 (mv_verify (=)) row980 =
       Inr (row980(''filtered'' \<mapsto> Bool True, ''filtered_reason'' \<mapsto> Str ''INCORRECT_ANSWER''))"
    using check_format_trace980 a
    by (intro filter_incorrect_answer [where t = trace980 and g = "Str ''9.8''"])
       (simp_all add: row980_def)
  then show ?thesis using a by blast
qed

text \<open>
  \<^bold>\<open>Claim C6.\<close> For every row with a problem text, \<open>distill_data_from_r1\<close> issues
  exactly one completion request. Its message list is a single message of role
  \<^verbatim>\<open>user\<close> (no system message) whose content is the prompt template with the problem
  text substituted; its decoding configuration is temperature 0.6, top_p 0.7,
  max_tokens 32768, and streaming is on.
\<close>

theorem C6_request:
  assumes "example ''problem'' = Some (Str problem)"
  shows "requests (snd (distill_data_from_r1 client example w)) =
     requests w @
       [\<lparr>model = ''nvdev/deepseek-ai/deepseek-r1'',
         messages = [[(''role'', ''user''),
                      (''content'', ''Please reason step by step, and put your final answer within ''
                                    @ [CHR 0x5C] @ ''boxed{}. '' @ problem)]],
         temperature = 0.6, top_p = 0.7, max_tokens = 32768, timeout = 10000,
         stream = True\<rparr>]"
  using distill_requests [where example = example and v = "Str problem", OF assms, of client w]
  by simp

theorem C6_request_witness:
  "requests (snd (distill_data_from_r1 client0 problem0 world0)) =
       [\<lparr>model = ''nvdev/deepseek-ai/deepseek-r1'',
         messages = [[(''role'', ''user''),
                      (''content'', ''Please reason step by step, and put your final answer within ''
                                    @ [CHR 0x5C] @ ''boxed{}. 2+2=?'')]],
         temperature = 0.6, top_p = 0.7, max_tokens = 32768, timeout = 10000,
         stream = True\<rparr>]"
proof -
  have "problem0 ''problem'' = Some (Str ''2+2=?'')"
    by (simp add: problem0_def)
  then show ?thesis
    using C6_request [where example = problem0 and problem = "''2+2=?''", of client0 world0]
    by (simp add: world0_def)
qed

text \<open>
  \<^bold>\<open>Claim C7.\<close> The row \<open>distill_data_from_r1\<close> returns has every column of its input
  unchanged (in particular \<^verbatim>\<open>problem\<close> and \<^verbatim>\<open>answer\<close>) and adds only
  \<^verbatim>\<open>reasoning_trace\<close>; the row \<open>filter_reasoning_trace\<close> returns has every column of
  its input unchanged (\<^verbatim>\<open>reasoning_trace\<close> included) and adds only \<^verbatim>\<open>filtered\<close> and
  \<^verbatim>\<open>filtered_reason\<close>. Both build a new dict from the row they are given,
  \<^verbatim>\<open>{**example, ...}\<close>, so the row itself is never written to. When the input has
  no column of the added names, the input is contained in the output. The requester
  does return a row when the row has a problem and the client does not raise.
\<close>

theorem C7_frame:
  "(distill_data_from_r1 client example w = (Inr r, w') \<longrightarrow>
      (\<forall>k. k \<noteq> ''reasoning_trace'' \<longrightarrow> r k = example k)
      \<and> r ''problem'' = example ''problem'' \<and> r ''answer'' = example ''answer''
      \<and> (\<exists>t. r ''reasoning_trace'' = Some (Str t))
      \<and> dom r = dom example \<union> {''reasoning_trace''}
      \<and> (''reasoning_trace'' \<notin> dom example \<longrightarrow> example \<subseteq>\<^sub>m r))
   \<and> (filter_reasoning_trace parse verify example = Inr r' \<longrightarrow>
      (\<forall>k. k \<noteq> ''filtered'' \<and> k \<noteq> ''filtered_reason'' \<longrightarrow> r' k = example k)
      \<and> r' ''problem'' = example ''problem'' \<and> r' ''answer'' = example ''answer''
      \<and> r' ''reasoning_trace'' = example ''reasoning_trace''
      \<and> dom r' = dom example \<union> {''filtered'', ''filtered_reason''}
      \<and> (''filtered'' \<notin> dom example \<and> ''filtered_reason'' \<notin> dom example \<longrightarrow>
            example \<subseteq>\<^sub>m r'))
   \<and> (example ''problem'' \<noteq> None \<and> (\<forall>n req. \<exists>c. client n req = Inr c) \<longrightarrow>
        (\<exists>r w'. distill_data_from_r1 client example w = (Inr r, w')))"
proof (intro conjI impI)
  assume d: "distill_data_from_r1 client example w = (Inr r, w')"
  obtain t where r: "r = example(''reasoning_trace'' \<mapsto> Str t)"
    using distill_result [OF d] by blast
  show "\<forall>k. k \<noteq> ''reasoning_trace'' \<longrightarrow> r k = example k" by (simp add: r)
  show "r ''problem'' = example ''problem''" by (simp add: r)
  show "r ''answer'' = example ''answer''" by (simp add: r)
  show "\<exists>t. r ''reasoning_trace'' = Some (Str t)" by (simp add: r)
  show "dom r = dom example \<union> {''reasoning_trace''}" by (simp add: r)
  show "example \<subseteq>\<^sub>m r" if "''reasoning_trace'' \<notin> dom example"
    using that by (auto simp: map_le_def r)
next
  assume f: "filter_reasoning_trace parse verify example = Inr r'"
  show "\<forall>k. k \<noteq> ''filtered'' \<and> k \<noteq> ''filtered_reason'' \<longrightarrow> r' k = example k"
    using filter_frame [OF f] by blast
  show "r' ''problem'' = example ''problem''"
    by (rule filter_frame [OF f]) simp_all
  show "r' ''answer'' = example ''answer''"
    by (rule filter_frame [OF f]) simp_all
  show "r' ''reasoning_trace'' = example ''reasoning_trace''"
    by (rule filter_frame [OF f]) simp_all
  show "dom r' = dom example \<union> {''filtered'', ''filtered_reason''}"
    by (rule filter_dom [OF f])
  show "example \<subseteq>\<^sub>m r'"
    if "''filtered'' \<notin> dom example \<and> ''filtered_reason'' \<notin> dom example"
  proof -
    have "r' k = example k" if "k \<in> dom example" for k
      using that \<open>''filtered'' \<notin> dom example \<and> ''filtered_reason'' \<notin> dom example\<close>
      by (intro filter_frame [OF f]) auto
    then show ?thesis by (simp add: map_le_def)
  qed
next
  assume h: "example ''problem'' \<noteq> None \<and> (\<forall>n req. \<exists>c. client n req = Inr c)"
  then obtain v where v: "example ''problem'' = Some v" by auto
  let ?req = "\<lparr>model = ''nvdev/deepseek-ai/deepseek-r1'',
                 messages = [[(''role'', ''user''),
                              (''content'', ''Please reason step by step, and put your final answer within ''
                                            @ [CHR 0x5C] @ ''boxed{}. '' @ py_str v)]],
                 temperature = 0.6, top_p = 0.7, max_tokens = 32768, timeout = 10000,
                 stream = True\<rparr>"
  obtain c where c: "client (length (requests w)) ?req = Inr c"
    using h by blast
  show "\<exists>r w'. distill_data_from_r1 client example w = (Inr r, w')"
    unfolding distill_unfold [where example = example and v = v, OF v]
    using c by (simp add: Let_def)
qed

theorem C7_frame_witness:
  "distill_data_from_r1 client0 problem0 world0 =
     (Inr (problem0(''reasoning_trace'' \<mapsto> Str boxed4)),
      world0\<lparr>requests := requests (snd (distill_data_from_r1 client0 problem0 world0))\<rparr>)
   \<and> (problem0(''reasoning_trace'' \<mapsto> Str boxed4)) ''problem'' = Some (Str ''2+2=?'')
   \<and> (problem0(''reasoning_trace'' \<mapsto> Str boxed4)) ''answer'' = Some (Str ''4'')
   \<and> filter_reasoning_trace parse0 (verify0 True) (row0 boxed4) =
       Inr ((row0 boxed4)(''filtered'' \<mapsto> Bool False, ''filtered_reason'' \<mapsto> Str ''VALID''))
   \<and> ((row0 boxed4)(''filtered'' \<mapsto> Bool False, ''filtered_reason'' \<mapsto> Str ''VALID'')) ''reasoning_trace''
       = Some (Str boxed4)"
proof -
  have pv: "problem0 ''problem'' = Some (Str ''2+2=?'')"
    by (simp add: problem0_def)
  have d: "distill_data_from_r1 client0 problem0 world0 =
     (Inr (problem0(''reasoning_trace'' \<mapsto> Str boxed4)),
      world0\<lparr>requests := requests (snd (distill_data_from_r1 client0 problem0 world0))\<rparr>)"
    unfolding distill_unfold [where example = problem0 and v = "Str ''2+2=?''", OF pv]
    by (simp add: Let_def client0_def world0_def process_streaming_response_def
          first_choice_def chunk_of_def boxed4_def)
  have "(problem0(''reasoning_trace'' \<mapsto> Str boxed4)) ''problem'' = problem0 ''problem''
        \<and> (problem0(''reasoning_trace'' \<mapsto> Str boxed4)) ''answer'' = problem0 ''answer''"
    using C7_frame [of client0 problem0 world0 "problem0(''reasoning_trace'' \<mapsto> Str boxed4)"
                      "world0\<lparr>requests := requests (snd (distill_data_from_r1 client0 problem0 world0))\<rparr>"]
          d
    by blast
  then have a: "(problem0(''reasoning_trace'' \<mapsto> Str boxed4)) ''problem'' = Some (Str ''2+2=?'')
        \<and> (problem0(''reasoning_trace'' \<mapsto> Str boxed4)) ''answer'' = Some (Str ''4'')"
    by (simp add: problem0_def)
  have "((row0 boxed4)(''filtered'' \<mapsto> Bool False, ''filtered_reason'' \<mapsto> Str ''VALID'')) ''reasoning_trace''
        = (row0 boxed4) ''reasoning_trace''"
    using C7_frame [where parse = parse0 and verify = "verify0 True" and example = "row0 boxed4"
                      and r' = "(row0 boxed4)(''filtered'' \<mapsto> Bool False, ''filtered_reason'' \<mapsto> Str ''VALID'')"]
          row0_filter_valid
    by blast
  then have b: "((row0 boxed4)(''filtered'' \<mapsto> Bool False, ''filtered_reason'' \<mapsto> Str ''VALID'')) ''reasoning_trace''
        = Some (Str boxed4)"
    by (simp add: row0_def)
  show ?thesis using d a b row0_filter_valid by blast
qed

text \<open>
  \<^bold>\<open>Claim C8.\<close> Validation drops no record: the intermediate dataset has one record
  for each input row, the one the validator returns for it, with its
  \<^verbatim>\<open>filtered\<close> flag and its reason code, also when \<^verbatim>\<open>filtered\<close> is true. The dataset
  saved under \<^verbatim>\<open>filtered_dataset\<close> consists of exactly the records of the intermediate
  dataset whose \<^verbatim>\<open>filtered\<close> field is false, in order. The cell completes whenever the
  validator returns a record on every row.
\<close>

theorem C8_retained_then_filtered:
  "(filter_cell parse verify ds w = Inr (sd, fd, w') \<longrightarrow>
      length sd = length ds
      \<and> list_all2 (\<lambda>x r. filter_reasoning_trace parse verify x = Inr r) ds sd
      \<and> (\<forall>r\<in>set sd.
            (r ''filtered'' = Some (Bool True) \<or> r ''filtered'' = Some (Bool False))
            \<and> (r ''filtered_reason'' = Some (Str ''VALID'')
                 \<or> r ''filtered_reason'' = Some (Str ''INVALID_FORMAT'')
                 \<or> r ''filtered_reason'' = Some (Str ''INCORRECT_ANSWER'')))
      \<and> fd = filter (\<lambda>r. r ''filtered'' = Some (Bool False)) sd
      \<and> disk w' ''filtered_dataset'' = Some fd)
   \<and> ((\<forall>x\<in>set ds. \<exists>r. filter_reasoning_trace parse verify x = Inr r) \<longrightarrow>
        (\<exists>sd fd w'. filter_cell parse verify ds w = Inr (sd, fd, w')))"
proof (intro conjI impI)
  assume fc: "filter_cell parse verify ds w = Inr (sd, fd, w')"
  then have m: "dataset_map (filter_reasoning_trace parse verify) ds = Inr sd"
    by (auto simp: filter_cell_def split: sum.splits)
  have rows: "list_all2 (\<lambda>x r. filter_reasoning_trace parse verify x = Inr r) ds sd"
    using m by (rule dataset_map_filter_rows)
  have verdict: "\<And>r. r \<in> set sd \<Longrightarrow>
      (r ''filtered'' = Some (Bool True) \<and> r ''filtered_reason'' = Some (Str ''INVALID_FORMAT'')) \<or>
      (r ''filtered'' = Some (Bool True) \<and> r ''filtered_reason'' = Some (Str ''INCORRECT_ANSWER'')) \<or>
      (r ''filtered'' = Some (Bool False) \<and> r ''filtered_reason'' = Some (Str ''VALID''))"
  proof -
    fix r assume "r \<in> set sd"
    then obtain x where "filter_reasoning_trace parse verify x = Inr r"
      using validated_rows_verdict [OF rows] by blast
    then show "(r ''filtered'' = Some (Bool True) \<and> r ''filtered_reason'' = Some (Str ''INVALID_FORMAT'')) \<or>
      (r ''filtered'' = Some (Bool True) \<and> r ''filtered_reason'' = Some (Str ''INCORRECT_ANSWER'')) \<or>
      (r ''filtered'' = Some (Bool False) \<and> r ''filtered_reason'' = Some (Str ''VALID''))"
      by (rule filter_verdict)
  qed
  have f: "dataset_filter not_filtered sd = Inr (filter (\<lambda>r. r ''filtered'' = Some (Bool False)) sd)"
    using verdict by (intro dataset_filter_not_filtered) blast
  show "length sd = length ds"
    using rows by (simp add: list_all2_lengthD)
  show "list_all2 (\<lambda>x r. filter_reasoning_trace parse verify x = Inr r) ds sd"
    by (rule rows)
  show "\<forall>r\<in>set sd.
            (r ''filtered'' = Some (Bool True) \<or> r ''filtered'' = Some (Bool False))
            \<and> (r ''filtered_reason'' = Some (Str ''VALID'')
                 \<or> r ''filtered_reason'' = Some (Str ''INVALID_FORMAT'')
                 \<or> r ''filtered_reason'' = Some (Str ''INCORRECT_ANSWER''))"
    using verdict by blast
  show "fd = filter (\<lambda>r. r ''filtered'' = Some (Bool False)) sd"
    using fc m f by (simp add: filter_cell_def)
  show "disk w' ''filtered_dataset'' = Some fd"
    using fc m f by (auto simp: filter_cell_def save_to_disk_def)
next
  assume "\<forall>x\<in>set ds. \<exists>r. filter_reasoning_trace parse verify x = Inr r"
  then obtain sd where m: "dataset_map (filter_reasoning_trace parse verify) ds = Inr sd"
    using dataset_map_total [of ds "filter_reasoning_trace parse verify"] by blast
  have rows: "list_all2 (\<lambda>x r. filter_reasoning_trace parse verify x = Inr r) ds sd"
    using m by (rule dataset_map_filter_rows)
  have "\<And>r. r \<in> set sd \<Longrightarrow> r ''filtered'' = Some (Bool True) \<or> r ''filtered'' = Some (Bool False)"
  proof -
    fix r assume "r \<in> set sd"
    then obtain x where "filter_reasoning_trace parse verify x = Inr r"
      using validated_rows_verdict [OF rows] by blast
    then show "r ''filtered'' = Some (Bool True) \<or> r ''filtered'' = Some (Bool False)"
      using filter_verdict by blast
  qed
  then have "dataset_filter not_filtered sd = Inr (filter (\<lambda>r. r ''filtered'' = Some (Bool False)) sd)"
    by (rule dataset_filter_not_filtered)
  then show "\<exists>sd fd w'. filter_cell parse verify ds w = Inr (sd, fd, w')"
    using m by (simp add: filter_cell_def)
qed

theorem C8_retained_then_filtered_witness:
  "filter_cell parse0 (verify0 True) [row0 boxed4, row0 ''no tags''] world0 =
     Inr ([row_valid, row_invalid], [row_valid],
          save_to_disk [row_valid] ''filtered_dataset'' world0)
   \<and> row_invalid ''filtered'' = Some (Bool True)
   \<and> row_invalid ''filtered_reason'' = Some (Str ''INVALID_FORMAT'')
   \<and> [row_valid] = filter (\<lambda>r. r ''filtered'' = Some (Bool False)) [row_valid, row_invalid]
   \<and> disk (save_to_disk [row_valid] ''filtered_dataset'' world0) ''filtered_dataset'' = Some [row_valid]"
proof -
  have "[row_valid] = filter (\<lambda>r. r ''filtered'' = Some (Bool False)) [row_valid, row_invalid]
        \<and> disk (save_to_disk [row_valid] ''filtered_dataset'' world0) ''filtered_dataset'' = Some [row_valid]"
    using C8_retained_then_filtered
            [where parse = parse0 and verify = "verify0 True" and ds = "[row0 boxed4, row0 ''no tags'']"
               and w = world0 and sd = "[row_valid, row_invalid]" and fd = "[row_valid]"
               and w' = "save_to_disk [row_valid] ''filtered_dataset'' world0"]
          filter_cell_rows0
    by blast
  moreover have "row_invalid ''filtered'' = Some (Bool True)
                 \<and> row_invalid ''filtered_reason'' = Some (Str ''INVALID_FORMAT'')"
    by (simp add: row_invalid_def)
  ultimately show ?thesis
    using filter_cell_rows0 by blast
qed

text \<open>
  \<^bold>\<open>Claim C9\<close>, as stated, says that for every stream the accumulated trace is the
  concatenation of the non-\<^verbatim>\<open>None\<close> content deltas of its chunks. It fails on a stream
  with a chunk whose list of choices is empty: \<^verbatim>\<open>chunk.choices[0]\<close> raises
  \<^verbatim>\<open>IndexError\<close>, the handler returns what was accumulated so far, and the deltas
  of the chunks that follow are never read.
\<close>

theorem C9_counterexample:
  "process_streaming_response ([empty_chunk, chunk_of (Some ''a'')], StopIteration) [] =
     ([], [''Error occurred: list index out of range''])
   \<and> fragments [empty_chunk, chunk_of (Some ''a'')] = ''a''"
  by (simp add: process_streaming_response_def first_choice_def empty_chunk_def chunk_of_def
        fragments_def)

text \<open>
  \<^bold>\<open>Claim C9, amended.\<close> For every stream, the accumulated trace is the concatenation,
  in arrival order, of the non-\<^verbatim>\<open>None\<close> content deltas of the chunks that come before
  the first chunk without choices; when every chunk has a choice these are all the
  non-\<^verbatim>\<open>None\<close> content deltas of the stream. A chunk whose content delta is
  \<^verbatim>\<open>None\<close> is skipped: removing it from the stream does not change the result.
\<close>

theorem C9_accumulated_trace:
  "(\<forall>chs fin out.
      fst (process_streaming_response (chs, fin) out) =
        fragments (takeWhile (\<lambda>c. choices c \<noteq> []) chs))
   \<and> (\<forall>chs fin out. (\<forall>c\<in>set chs. choices c \<noteq> []) \<longrightarrow>
        fst (process_streaming_response (chs, fin) out) = fragments chs)
   \<and> (\<forall>chs1 chs2 fin out.
        fst (process_streaming_response (chs1 @ chunk_of None # chs2, fin) out) =
        fst (process_streaming_response (chs1 @ chs2, fin) out))
   \<and> (\<forall>ds fin out.
        fst (process_streaming_response (map (\<lambda>d. chunk_of (Some d)) ds, fin) out) = concat ds)"
proof (intro conjI allI impI)
  fix chs :: "chunk list" and fin :: ending and out :: "string list"
  show "fst (process_streaming_response (chs, fin) out) =
        fragments (takeWhile (\<lambda>c. choices c \<noteq> []) chs)"
    by (simp only: process_streaming_response_trace processed_takeWhile)
next
  fix chs :: "chunk list" and fin :: ending and out :: "string list"
  assume "\<forall>c\<in>set chs. choices c \<noteq> []"
  then have "list_all has_choice chs" by (simp only: all_choices)
  then show "fst (process_streaming_response (chs, fin) out) = fragments chs"
    by (simp only: process_streaming_response_trace processed_all)
next
  fix chs1 chs2 :: "chunk list" and fin :: ending and out :: "string list"
  show "fst (process_streaming_response (chs1 @ chunk_of None # chs2, fin) out) =
        fst (process_streaming_response (chs1 @ chs2, fin) out)"
    by (simp only: process_streaming_response_trace processed_skip_None)
next
  fix ds :: "string list" and fin :: ending and out :: "string list"
  have "list_all has_choice (map (\<lambda>d. chunk_of (Some d)) ds)"
    by (simp add: list_all_iff has_choice_def chunk_of_def)
  then show "fst (process_streaming_response (map (\<lambda>d. chunk_of (Some d)) ds, fin) out) = concat ds"
    by (simp only: process_streaming_response_trace processed_all fragments_Some)
qed

theorem C9_accumulated_trace_witness:
  "fst (process_streaming_response
         ([chunk_of (Some ''ab''), chunk_of None, chunk_of (Some ''c'')], StopIteration) []) = ''abc''"
proof -
  let ?chs = "[chunk_of (Some ''ab''), chunk_of None, chunk_of (Some ''c'')]"
  have "(\<forall>c\<in>set ?chs. choices c \<noteq> []) \<longrightarrow>
        fst (process_streaming_response (?chs, StopIteration) []) = fragments ?chs"
    using C9_accumulated_trace by blast
  then show ?thesis
    by (simp add: chunk_of_def fragments_def)
qed

text \<open>
  \<^bold>\<open>Claim C10.\<close> For every string \<open>t\<close>, \<open>check_format t\<close> is equivalent to the simpler
  predicate \<open>check_format_spec\<close>: \<open>t\<close> starts with \<^verbatim>\<open><think>\<close> and contains exactly
  one \<^verbatim>\<open><think>\<close> and exactly one \<^verbatim>\<open></think>\<close>. The \<^verbatim>\<open>MULTILINE\<close> flag does not
  change the result of the match, and under the counting conditions the single
  \<^verbatim>\<open></think>\<close> lies after the opening prefix.
\<close>

theorem C10_check_format_refines:
  "(\<forall>t. check_format t = check_format_spec t)
   \<and> (\<forall>t. re_match pattern t \<lparr>DOTALL = True, MULTILINE = False\<rparr> =
            re_match pattern t \<lparr>DOTALL = True, MULTILINE = True\<rparr>)
   \<and> (\<forall>t. prefix ''<think>'' t \<and> occurrences ''</think>'' t = 1 \<longrightarrow>
            (\<exists>u v. t = ''<think>'' @ u @ ''</think>'' @ v))"
proof (intro conjI allI impI)
  fix t
  show "check_format t = check_format_spec t"
    by (rule check_format_eq_spec)
next
  fix t
  show "re_match pattern t \<lparr>DOTALL = True, MULTILINE = False\<rparr> =
        re_match pattern t \<lparr>DOTALL = True, MULTILINE = True\<rparr>"
    by (rule re_match_multiline)
next
  fix t
  assume "prefix ''<think>'' t \<and> occurrences ''</think>'' t = 1"
  then show "\<exists>u v. t = ''<think>'' @ u @ ''</think>'' @ v"
    using closing_after_opening [of t] by blast
qed

theorem C10_check_format_refines_witness:
  "prefix ''<think>'' ''<think>a</think>b'' \<and> occurrences ''</think>'' ''<think>a</think>b'' = 1
   \<and> (\<exists>u v. ''<think>a</think>b'' = ''<think>'' @ u @ ''</think>'' @ v)
   \<and> check_format ''<think>a</think>b'' = check_format_spec ''<think>a</think>b''"
proof -
  have h: "prefix ''<think>'' ''<think>a</think>b'' \<and> occurrences ''</think>'' ''<think>a</think>b'' = 1"
    by simp
  have "prefix ''<think>'' ''<think>a</think>b'' \<and> occurrences ''</think>'' ''<think>a</think>b'' = 1 \<longrightarrow>
        (\<exists>u v. ''<think>a</think>b'' = ''<think>'' @ u @ ''</think>'' @ v)"
    using C10_check_format_refines by blast
  moreover have "check_format ''<think>a</think>b'' = check_format_spec ''<think>a</think>b''"
    using C10_check_format_refines by blast
  ultimately show ?thesis using h by blast
qed

end
